theory Spec2Isabelle
  imports Main "HOL-Library.AList"
begin

section \<open>The pipeline designer: data model\<close>

text \<open>
  The enumerations of \<^verbatim>\<open>designer/enums.py\<close>. Each is a string-valued Python
  enum; the functions \<open>NodeType_value\<close>, \<open>RouteType_value\<close> and \<open>Operation_value\<close>
  give the string a member stands for.
\<close>

datatype RouteType = CHECK_TYPE | CHECK_VALUE

datatype Operation =
    GREATER_THAN | GREATER_THAN_OR_EQUAL | LESS_THAN | LESS_THAN_OR_EQUAL
  | EQUAL | DIFFERENT | CONTAIN | NOT_CONTAIN

datatype NodeType =
    ASSET | INPUT | OUTPUT | SCRIPT | SEGMENTOR | RECONSTRUCTOR | ROUTER | DECISION

fun RouteType_value :: "RouteType \<Rightarrow> string" where
  "RouteType_value CHECK_TYPE = ''checkType''"
| "RouteType_value CHECK_VALUE = ''checkValue''"

fun Operation_value :: "Operation \<Rightarrow> string" where
  "Operation_value GREATER_THAN = ''greaterThan''"
| "Operation_value GREATER_THAN_OR_EQUAL = ''greaterThanOrEqual''"
| "Operation_value LESS_THAN = ''lessThan''"
| "Operation_value LESS_THAN_OR_EQUAL = ''lessThanOrEqual''"
| "Operation_value EQUAL = ''equal''"
| "Operation_value DIFFERENT = ''different''"
| "Operation_value CONTAIN = ''contain''"
| "Operation_value NOT_CONTAIN = ''notContain''"

fun NodeType_value :: "NodeType \<Rightarrow> string" where
  "NodeType_value ASSET = ''ASSET''"
| "NodeType_value INPUT = ''INPUT''"
| "NodeType_value OUTPUT = ''OUTPUT''"
| "NodeType_value SCRIPT = ''SCRIPT''"
| "NodeType_value SEGMENTOR = ''SEGMENT''"
| "NodeType_value RECONSTRUCTOR = ''RECONSTRUCT''"
| "NodeType_value ROUTER = ''ROUTER''"
| "NodeType_value DECISION = ''DECISION''"

text \<open>
  Python values as far as this module handles them: \<open>None\<close>, integers, strings, lists
  and dictionaries with string keys. A dictionary is an association list in insertion
  order with distinct keys.
\<close>

datatype pyval =
    PNone
  | PInt int
  | PStr string
  | PList "pyval list"
  | PDict "(string \<times> pyval) list"

text \<open>
  Modelled from the spec: the classes \<open>Node\<close>, \<open>Link\<close> and the parameter-mapping
  entry of \<^verbatim>\<open>base.py\<close>, which \<^verbatim>\<open>pipeline.py\<close> imports and which is not among the
  source files. A node has a number, a label and a type (the kind-specific fields of
  the node variants of \<^verbatim>\<open>nodes.py\<close>, absent as well, are left out); a link has
  the numbers of its source and target node and a sequence of parameter mappings, which
  may also be \<open>None\<close> (the serializer reads it with
  \<^verbatim>\<open>link.get("paramMapping", []) or []\<close>).
\<close>

record Node =
  number :: int
  label :: string
  node_type :: NodeType

record ParamMapping =
  from_param :: string
  to_param :: string

record Link =
  from_node :: int
  to_node :: int
  paramMapping :: "ParamMapping list option"

text \<open>
  The dataclass \<open>Pipeline\<close>: the node list, the link list, and \<open>instance\<close>, the handle
  of the saved pipeline (\<open>None\<close> until \<open>save\<close> succeeds). \<open>instance\<close> is declared as an
  \<open>InitVar\<close>, so it is no dataclass field: \<open>asdict\<close> leaves it out. The handle is an
  object of the platform client, of type \<open>'h\<close> here.
\<close>

record 'h Pipeline =
  nodes :: "Node list"
  links :: "Link list"
  p_instance :: "'h option"

text \<open>The exceptions this module raises or lets through, each with its message.\<close>

datatype error =
    ValueError string
  | KeyError string
  | TypeError string
  | AttributeError string
  | RemoteError string

section \<open>The structural validator\<close>

text \<open>
  \<^verbatim>\<open>link_from_map = {link.from_node: link for link in self.links}\<close>: a dictionary
  comprehension, where a later link replaces an earlier one under the same key.
\<close>

definition link_from_map :: "Link list \<Rightarrow> (int \<rightharpoonup> Link)" where
  "link_from_map ls = fold (\<lambda>link m. m(from_node link \<mapsto> link)) ls Map.empty"

definition link_to_map :: "Link list \<Rightarrow> (int \<rightharpoonup> Link)" where
  "link_to_map ls = fold (\<lambda>link m. m(to_node link \<mapsto> link)) ls Map.empty"

text \<open>The body of the loop over the nodes: the check of one node.\<close>

definition check_node :: "(int \<rightharpoonup> Link) \<Rightarrow> (int \<rightharpoonup> Link) \<Rightarrow> Node \<Rightarrow> error + unit" where
  "check_node fm tm node =
     (if node_type node = INPUT then
        (if fm (number node) = None
         then Inl (ValueError (''Input node '' @ label node @ '' not linked out''))
         else Inr ())
      else if node_type node = OUTPUT then
        (if tm (number node) = None
         then Inl (ValueError (''Output node '' @ label node @ '' not linked in''))
         else Inr ())
      else
        (if fm (number node) = None
         then Inl (ValueError (''Node '' @ label node @ '' not linked in''))
         else if tm (number node) = None
         then Inl (ValueError (''Node '' @ label node @ '' not linked out''))
         else Inr ()))"

text \<open>The loop: the first node that fails its check raises, and the loop ends there.\<close>

fun validate_nodes :: "(int \<rightharpoonup> Link) \<Rightarrow> (int \<rightharpoonup> Link) \<Rightarrow> Node list \<Rightarrow> error + unit" where
  "validate_nodes fm tm [] = Inr ()"
| "validate_nodes fm tm (node # rest) =
     (case check_node fm tm node of
        Inl e \<Rightarrow> Inl e
      | Inr _ \<Rightarrow> validate_nodes fm tm rest)"

definition validate :: "'h Pipeline \<Rightarrow> error + unit" where
  "validate p = validate_nodes (link_from_map (links p)) (link_to_map (links p)) (nodes p)"

section \<open>Serialization\<close>

text \<open>
  \<open>dataclasses.asdict\<close> turns a dataclass instance into a new dictionary of its fields,
  in declaration order, and does so recursively through lists; the result shares no
  object with the instance. Here it is given on values; the section on the object store
  below gives it on objects with identity.
\<close>

definition asdict_Node :: "Node \<Rightarrow> pyval" where
  "asdict_Node n =
     PDict [(''number'', PInt (number n)), (''label'', PStr (label n)),
            (''type'', PStr (NodeType_value (node_type n)))]"

definition asdict_ParamMapping :: "ParamMapping \<Rightarrow> pyval" where
  "asdict_ParamMapping pm =
     PDict [(''from_param'', PStr (from_param pm)), (''to_param'', PStr (to_param pm))]"

definition asdict_Link :: "Link \<Rightarrow> pyval" where
  "asdict_Link l =
     PDict [(''from_node'', PInt (from_node l)), (''to_node'', PInt (to_node l)),
            (''paramMapping'',
               (case paramMapping l of
                  None \<Rightarrow> PNone
                | Some pms \<Rightarrow> PList (map asdict_ParamMapping pms)))]"

definition asdict_Pipeline :: "'h Pipeline \<Rightarrow> (string \<times> pyval) list" where
  "asdict_Pipeline p =
     [(''nodes'', PList (map asdict_Node (nodes p))),
      (''links'', PList (map asdict_Link (links p)))]"

text \<open>
  Dictionary operations: \<open>d.pop(k)\<close> raises \<open>KeyError\<close> on a missing key and otherwise
  gives the value and removes the entry; \<open>d[k] = v\<close> replaces the value in place or adds
  the entry at the end; \<open>d.get(k, default)\<close>.
\<close>

definition dict_pop :: "string \<Rightarrow> (string \<times> 'v) list \<Rightarrow> error + ('v \<times> (string \<times> 'v) list)" where
  "dict_pop k d =
     (case map_of d k of
        None \<Rightarrow> Inl (KeyError k)
      | Some v \<Rightarrow> Inr (v, AList.delete k d))"

definition dict_set :: "string \<Rightarrow> 'v \<Rightarrow> (string \<times> 'v) list \<Rightarrow> (string \<times> 'v) list" where
  "dict_set k v d = AList.update k v d"

definition dict_get :: "string \<Rightarrow> 'v \<Rightarrow> (string \<times> 'v) list \<Rightarrow> 'v" where
  "dict_get k dflt d = (case map_of d k of None \<Rightarrow> dflt | Some v \<Rightarrow> v)"

text \<open>Truth value of a Python value (for \<open>x or []\<close>).\<close>

fun truthy :: "pyval \<Rightarrow> bool" where
  "truthy PNone = False"
| "truthy (PInt i) = (i \<noteq> 0)"
| "truthy (PStr s) = (s \<noteq> [])"
| "truthy (PList xs) = (xs \<noteq> [])"
| "truthy (PDict d) = (d \<noteq> [])"

text \<open>A loop body that may raise, run over a list: the first error ends the loop.\<close>

fun map_err :: "('a \<Rightarrow> error + 'b) \<Rightarrow> 'a list \<Rightarrow> error + 'b list" where
  "map_err f [] = Inr []"
| "map_err f (x # xs) =
     (case f x of
        Inl e \<Rightarrow> Inl e
      | Inr y \<Rightarrow> (case map_err f xs of Inl e \<Rightarrow> Inl e | Inr ys \<Rightarrow> Inr (y # ys)))"

text \<open>
  The inner loop body of \<open>to_dict\<close>, on one entry of a link's parameter mapping:
  \<^verbatim>\<open>param["from"] = param.pop("from_param"); param["to"] = param.pop("to_param")\<close>.
  Only a dictionary has the method; a list's \<open>pop\<close> refuses a string index.
\<close>

fun rename_param :: "pyval \<Rightarrow> error + pyval" where
  "rename_param (PDict d) =
     (case dict_pop ''from_param'' d of
        Inl e \<Rightarrow> Inl e
      | Inr (v, d1) \<Rightarrow>
          (case dict_pop ''to_param'' (dict_set ''from'' v d1) of
             Inl e \<Rightarrow> Inl e
           | Inr (w, d2) \<Rightarrow> Inr (PDict (dict_set ''to'' w d2))))"
| "rename_param (PList xs) = Inl (TypeError ''pop'')"
| "rename_param v = Inl (AttributeError ''pop'')"

text \<open>
  The outer loop body, on one link dictionary. The entries of the parameter mapping are
  changed in place, so the list under \<open>paramMapping\<close> holds the renamed entries
  afterwards. \<open>or []\<close> replaces a false value (\<open>None\<close>, an empty list) by a new empty
  list, over which the inner loop does nothing. A non-empty dictionary or string iterates
  over strings, which have no \<open>pop\<close>; an integer is not iterable.
\<close>

fun rename_params :: "pyval \<Rightarrow> (string \<times> pyval) list \<Rightarrow> error + (string \<times> pyval) list" where
  "rename_params (PList params) d =
     (case map_err rename_param params of
        Inl e \<Rightarrow> Inl e
      | Inr params' \<Rightarrow> Inr (dict_set ''paramMapping'' (PList params') d))"
| "rename_params (PInt i) d = Inl (TypeError ''not iterable'')"
| "rename_params v d = Inl (AttributeError ''pop'')"

fun rename_link :: "pyval \<Rightarrow> error + pyval" where
  "rename_link (PDict d) =
     (case dict_pop ''from_node'' d of
        Inl e \<Rightarrow> Inl e
      | Inr (v, d1) \<Rightarrow>
          (case dict_pop ''to_node'' (dict_set ''from'' v d1) of
             Inl e \<Rightarrow> Inl e
           | Inr (w, d2) \<Rightarrow>
               (let d3 = dict_set ''to'' w d2;
                    params = dict_get ''paramMapping'' (PList []) d3
                in if truthy params
                   then (case rename_params params d3 of
                           Inl e \<Rightarrow> Inl e
                         | Inr d4 \<Rightarrow> Inr (PDict d4))
                   else Inr (PDict d3))))"
| "rename_link (PList xs) = Inl (TypeError ''pop'')"
| "rename_link v = Inl (AttributeError ''pop'')"

text \<open>
  \<open>to_dict\<close>: \<open>asdict(self)\<close>, then the loop over \<open>obj["links"]\<close>, which \<open>asdict\<close> made a
  list; the link dictionaries are changed in place, so \<open>obj["links"]\<close> holds the renamed
  ones afterwards.
\<close>

definition to_dict :: "'h Pipeline \<Rightarrow> error + pyval" where
  "to_dict p =
     (let obj = asdict_Pipeline p
      in case map_of obj ''links'' of
           None \<Rightarrow> Inl (KeyError ''links'')
         | Some (PList ls) \<Rightarrow>
             (case map_err rename_link ls of
                Inl e \<Rightarrow> Inl e
              | Inr ls' \<Rightarrow> Inr (PDict (dict_set ''links'' (PList ls') obj)))
         | Some v \<Rightarrow> Inl (TypeError ''not a list''))"

text \<open>Python's \<open>==\<close> on these values: dictionaries are equal whatever the order of their entries.\<close>

fun py_eq :: "pyval \<Rightarrow> pyval \<Rightarrow> bool" where
  "py_eq PNone PNone = True"
| "py_eq (PInt i) (PInt j) = (i = j)"
| "py_eq (PStr s) (PStr t) = (s = t)"
| "py_eq (PList xs) (PList ys) = list_all2 py_eq xs ys"
| "py_eq (PDict d) (PDict e) =
     (length d = length e \<and>
      list_all (\<lambda>(k, v). case map_of e k of None \<Rightarrow> False | Some w \<Rightarrow> py_eq v w) d)"
| "py_eq v w = False"

section \<open>Serialization on the object store\<close>

text \<open>
  \<open>to_dict\<close> changes dictionaries in place, so what it changes depends on which objects
  \<open>asdict\<close> returns. Here the objects have identity: a store is the list of the objects
  allocated so far, an address is an index into it, and a value is \<open>None\<close>, an integer,
  a string or a reference to an object. The objects are the dataclass instances of the
  data model (with their fields), lists and dictionaries. A store in which a pipeline's
  lists hold anything but their nodes, links and parameter mappings is outside the data
  model; \<open>asdict\<close> answers \<open>TypeError\<close> there.
\<close>

type_synonym addr = nat

datatype val = VNone | VInt int | VStr string | VRef addr

datatype obj =
    NodeObj int string NodeType
  | ParamMappingObj string string
  | LinkObj int int val
  | PipelineObj val val
  | ListObj "val list"
  | DictObj "(string \<times> val) list"

type_synonym store = "obj list"

definition new_obj :: "obj \<Rightarrow> store \<Rightarrow> val \<times> store" where
  "new_obj ob h = (VRef (length h), h @ [ob])"

definition obj_at :: "store \<Rightarrow> val \<Rightarrow> obj option" where
  "obj_at h v = (case v of VRef a \<Rightarrow> (if a < length h then Some (h ! a) else None) | _ \<Rightarrow> None)"

definition put_obj :: "val \<Rightarrow> obj \<Rightarrow> store \<Rightarrow> store" where
  "put_obj v ob h = (case v of VRef a \<Rightarrow> h[a := ob] | _ \<Rightarrow> h)"

text \<open>A loop body that returns a value and may raise, run over a list, the store threaded through.\<close>

fun map_st :: "(store \<Rightarrow> 'a \<Rightarrow> error + ('b \<times> store)) \<Rightarrow> store \<Rightarrow> 'a list \<Rightarrow> error + ('b list \<times> store)" where
  "map_st f h [] = Inr ([], h)"
| "map_st f h (x # xs) =
     (case f h x of
        Inl e \<Rightarrow> Inl e
      | Inr (y, h1) \<Rightarrow>
          (case map_st f h1 xs of
             Inl e \<Rightarrow> Inl e
           | Inr (ys, h2) \<Rightarrow> Inr (y # ys, h2)))"

text \<open>A loop body run for its effect on the store.\<close>

fun foreach_st :: "(store \<Rightarrow> 'a \<Rightarrow> error + store) \<Rightarrow> store \<Rightarrow> 'a list \<Rightarrow> error + store" where
  "foreach_st f h [] = Inr h"
| "foreach_st f h (x # xs) =
     (case f h x of
        Inl e \<Rightarrow> Inl e
      | Inr h1 \<Rightarrow> foreach_st f h1 xs)"

text \<open>
  \<open>asdict\<close>: a new dictionary for a dataclass instance, a new list for a list, with the
  fields and elements converted first.
\<close>

definition asdict_list_st ::
  "(store \<Rightarrow> val \<Rightarrow> error + (val \<times> store)) \<Rightarrow> store \<Rightarrow> val \<Rightarrow> error + (val \<times> store)" where
  "asdict_list_st f h v =
     (case obj_at h v of
        Some (ListObj vs) \<Rightarrow>
          (case map_st f h vs of
             Inl e \<Rightarrow> Inl e
           | Inr (ws, h1) \<Rightarrow> Inr (new_obj (ListObj ws) h1))
      | _ \<Rightarrow> Inl (TypeError ''list''))"

definition asdict_Node_st :: "store \<Rightarrow> val \<Rightarrow> error + (val \<times> store)" where
  "asdict_Node_st h v =
     (case obj_at h v of
        Some (NodeObj n l t) \<Rightarrow>
          Inr (new_obj (DictObj [(''number'', VInt n), (''label'', VStr l),
                                 (''type'', VStr (NodeType_value t))]) h)
      | _ \<Rightarrow> Inl (TypeError ''Node''))"

definition asdict_ParamMapping_st :: "store \<Rightarrow> val \<Rightarrow> error + (val \<times> store)" where
  "asdict_ParamMapping_st h v =
     (case obj_at h v of
        Some (ParamMappingObj f t) \<Rightarrow>
          Inr (new_obj (DictObj [(''from_param'', VStr f), (''to_param'', VStr t)]) h)
      | _ \<Rightarrow> Inl (TypeError ''ParamMapping''))"

definition asdict_Link_st :: "store \<Rightarrow> val \<Rightarrow> error + (val \<times> store)" where
  "asdict_Link_st h v =
     (case obj_at h v of
        Some (LinkObj f t pm) \<Rightarrow>
          (case (if pm = VNone then Inr (VNone, h)
                 else asdict_list_st asdict_ParamMapping_st h pm) of
             Inl e \<Rightarrow> Inl e
           | Inr (pm', h1) \<Rightarrow>
               Inr (new_obj (DictObj [(''from_node'', VInt f), (''to_node'', VInt t),
                                      (''paramMapping'', pm')]) h1))
      | _ \<Rightarrow> Inl (TypeError ''Link''))"

definition asdict_Pipeline_st :: "store \<Rightarrow> val \<Rightarrow> error + (val \<times> store)" where
  "asdict_Pipeline_st h v =
     (case obj_at h v of
        Some (PipelineObj ns ls) \<Rightarrow>
          (case asdict_list_st asdict_Node_st h ns of
             Inl e \<Rightarrow> Inl e
           | Inr (ns', h1) \<Rightarrow>
               (case asdict_list_st asdict_Link_st h1 ls of
                  Inl e \<Rightarrow> Inl e
                | Inr (ls', h2) \<Rightarrow>
                    Inr (new_obj (DictObj [(''nodes'', ns'), (''links'', ls')]) h2)))
      | _ \<Rightarrow> Inl (TypeError ''Pipeline''))"

text \<open>
  The operations of \<open>to_dict\<close> on a value of the store: \<open>v.pop(k)\<close>, \<open>v[k] = x\<close>,
  \<open>v.get(k, default)\<close>, \<open>v[k]\<close>, the truth value of \<open>v\<close>, and the items a loop over \<open>v\<close>
  visits. Each one that changes a dictionary writes the changed dictionary back at the
  dictionary's address.
\<close>

definition pop_st :: "store \<Rightarrow> val \<Rightarrow> string \<Rightarrow> error + (val \<times> store)" where
  "pop_st h v k =
     (case obj_at h v of
        Some (DictObj d) \<Rightarrow>
          (case dict_pop k d of
             Inl e \<Rightarrow> Inl e
           | Inr (x, d') \<Rightarrow> Inr (x, put_obj v (DictObj d') h))
      | Some (ListObj vs) \<Rightarrow> Inl (TypeError ''pop'')
      | _ \<Rightarrow> Inl (AttributeError ''pop''))"

definition setitem_st :: "store \<Rightarrow> val \<Rightarrow> string \<Rightarrow> val \<Rightarrow> error + store" where
  "setitem_st h v k x =
     (case obj_at h v of
        Some (DictObj d) \<Rightarrow> Inr (put_obj v (DictObj (dict_set k x d)) h)
      | _ \<Rightarrow> Inl (TypeError ''item assignment''))"

definition get_st :: "store \<Rightarrow> val \<Rightarrow> string \<Rightarrow> val \<Rightarrow> error + val" where
  "get_st h v k dflt =
     (case obj_at h v of
        Some (DictObj d) \<Rightarrow> Inr (dict_get k dflt d)
      | _ \<Rightarrow> Inl (AttributeError ''get''))"

definition getitem_st :: "store \<Rightarrow> val \<Rightarrow> string \<Rightarrow> error + val" where
  "getitem_st h v k =
     (case obj_at h v of
        Some (DictObj d) \<Rightarrow>
          (case map_of d k of None \<Rightarrow> Inl (KeyError k) | Some x \<Rightarrow> Inr x)
      | _ \<Rightarrow> Inl (TypeError ''not subscriptable''))"

definition truthy_st :: "store \<Rightarrow> val \<Rightarrow> bool" where
  "truthy_st h v =
     (case v of
        VNone \<Rightarrow> False
      | VInt i \<Rightarrow> i \<noteq> 0
      | VStr s \<Rightarrow> s \<noteq> []
      | VRef a \<Rightarrow>
          (case obj_at h v of
             Some (ListObj vs) \<Rightarrow> vs \<noteq> []
           | Some (DictObj d) \<Rightarrow> d \<noteq> []
           | _ \<Rightarrow> True))"

definition iter_st :: "store \<Rightarrow> val \<Rightarrow> error + val list" where
  "iter_st h v =
     (case v of
        VStr s \<Rightarrow> Inr (map (\<lambda>c. VStr [c]) s)
      | VRef a \<Rightarrow>
          (case obj_at h v of
             Some (ListObj vs) \<Rightarrow> Inr vs
           | Some (DictObj d) \<Rightarrow> Inr (map (\<lambda>kx. VStr (fst kx)) d)
           | _ \<Rightarrow> Inl (TypeError ''not iterable''))
      | _ \<Rightarrow> Inl (TypeError ''not iterable''))"

text \<open>The inner loop body: the two renames of one entry of a parameter mapping.\<close>

definition rename_param_st :: "store \<Rightarrow> val \<Rightarrow> error + store" where
  "rename_param_st h param =
     (case pop_st h param ''from_param'' of
        Inl e \<Rightarrow> Inl e
      | Inr (x, h1) \<Rightarrow>
          (case setitem_st h1 param ''from'' x of
             Inl e \<Rightarrow> Inl e
           | Inr h2 \<Rightarrow>
               (case pop_st h2 param ''to_param'' of
                  Inl e \<Rightarrow> Inl e
                | Inr (y, h3) \<Rightarrow> setitem_st h3 param ''to'' y)))"

text \<open>
  \<^verbatim>\<open>params = link.get("paramMapping", []) or []\<close>. The default \<open>[]\<close> of \<open>get\<close> and
  the \<open>[]\<close> of \<open>or []\<close> are new empty lists.
\<close>

definition link_params_st :: "store \<Rightarrow> val \<Rightarrow> error + (val \<times> store)" where
  "link_params_st h link =
     (let (dflt, h1) = new_obj (ListObj []) h
      in case get_st h1 link ''paramMapping'' dflt of
           Inl e \<Rightarrow> Inl e
         | Inr got \<Rightarrow>
             Inr (if truthy_st h1 got then (got, h1) else new_obj (ListObj []) h1))"

text \<open>The outer loop body, on one link dictionary.\<close>

definition rename_link_st :: "store \<Rightarrow> val \<Rightarrow> error + store" where
  "rename_link_st h link =
     (case pop_st h link ''from_node'' of
        Inl e \<Rightarrow> Inl e
      | Inr (x, h1) \<Rightarrow>
          (case setitem_st h1 link ''from'' x of
             Inl e \<Rightarrow> Inl e
           | Inr h2 \<Rightarrow>
               (case pop_st h2 link ''to_node'' of
                  Inl e \<Rightarrow> Inl e
                | Inr (y, h3) \<Rightarrow>
                    (case setitem_st h3 link ''to'' y of
                       Inl e \<Rightarrow> Inl e
                     | Inr h4 \<Rightarrow>
                         (case link_params_st h4 link of
                            Inl e \<Rightarrow> Inl e
                          | Inr (params, h5) \<Rightarrow>
                              (case iter_st h5 params of
                                 Inl e \<Rightarrow> Inl e
                               | Inr items \<Rightarrow> foreach_st rename_param_st h5 items))))))"

text \<open>\<open>to_dict\<close> on the store: the result is the dictionary \<open>asdict\<close> made, after the loop.\<close>

definition to_dict_st :: "store \<Rightarrow> val \<Rightarrow> error + (val \<times> store)" where
  "to_dict_st h self =
     (case asdict_Pipeline_st h self of
        Inl e \<Rightarrow> Inl e
      | Inr (obj, h1) \<Rightarrow>
          (case getitem_st h1 obj ''links'' of
             Inl e \<Rightarrow> Inl e
           | Inr ls \<Rightarrow>
               (case iter_st h1 ls of
                  Inl e \<Rightarrow> Inl e
                | Inr items \<Rightarrow>
                    (case foreach_st rename_link_st h1 items of
                       Inl e \<Rightarrow> Inl e
                     | Inr h2 \<Rightarrow> Inr (obj, h2)))))"

section \<open>What the store operations leave alone\<close>

text \<open>
  A value is fresh with respect to \<open>n\<close> when it is no reference to one of the first \<open>n\<close>
  objects. \<open>obj_vals\<close> lists the values an object holds. \<open>inv_st h0 h\<close>: the store \<open>h\<close>
  begins with the objects of \<open>h0\<close>, unchanged, and the objects allocated after them hold
  fresh values only.
\<close>

definition fresh :: "nat \<Rightarrow> val \<Rightarrow> bool" where
  "fresh n v = (case v of VRef a \<Rightarrow> n \<le> a | _ \<Rightarrow> True)"

fun obj_vals :: "obj \<Rightarrow> val list" where
  "obj_vals (NodeObj n l t) = []"
| "obj_vals (ParamMappingObj f t) = []"
| "obj_vals (LinkObj f t pm) = [pm]"
| "obj_vals (PipelineObj ns ls) = [ns, ls]"
| "obj_vals (ListObj vs) = vs"
| "obj_vals (DictObj d) = map snd d"

definition inv_st :: "store \<Rightarrow> store \<Rightarrow> bool" where
  "inv_st h0 h \<longleftrightarrow>
     length h0 \<le> length h \<and> take (length h0) h = h0 \<and>
     (\<forall>a. length h0 \<le> a \<and> a < length h \<longrightarrow> list_all (fresh (length h0)) (obj_vals (h ! a)))"

section \<open>Saving and running\<close>

text \<open>
  \<open>save\<close> and \<open>run\<close> call the platform: \<open>PipelineFactory.create(name, graph)\<close>, which
  returns the handle or raises, and the handle's \<open>run\<close>. Both are parameters here. The
  calls made to \<open>create\<close> are recorded in a log, and every outcome carries the pipeline
  and the log as they are when the method returns or raises. \<open>uuid4\<close> is the string of
  the identifier that \<open>uuid.uuid4()\<close> draws.
\<close>

type_synonym call = "string \<times> pyval"

definition save ::
  "(string \<Rightarrow> pyval \<Rightarrow> error + 'h) \<Rightarrow> string \<Rightarrow> 'h Pipeline \<Rightarrow> call list
     \<Rightarrow> (error + 'h Pipeline) \<times> 'h Pipeline \<times> call list" where
  "save create uuid4 self calls =
     (case validate self of
        Inl e \<Rightarrow> (Inl e, self, calls)
      | Inr _ \<Rightarrow>
          (let name = ''pipeline-'' @ uuid4
           in case to_dict self of
                Inl e \<Rightarrow> (Inl e, self, calls)
              | Inr graph \<Rightarrow>
                  (case create name graph of
                     Inl e \<Rightarrow> (Inl e, self, calls @ [(name, graph)])
                   | Inr handle \<Rightarrow>
                       (let self' = self\<lparr>p_instance := Some handle\<rparr>
                        in (Inr self', self', calls @ [(name, graph)])))))"

text \<open>
  \<open>run\<close>: \<^verbatim>\<open>if not self.instance: raise ValueError("Pipeline not saved")\<close>, then
  \<^verbatim>\<open>return self.instance.run(*args, **kwargs)\<close>. The test is Python's truth value:
  \<open>None\<close> is false, and a handle is true or false as its class has it (\<open>handle_true\<close>, a
  parameter, as the class of the handle is the platform client's). The outcome comes
  with the list of the calls made to the handle's \<open>run\<close>.
\<close>

definition instance_true :: "('h \<Rightarrow> bool) \<Rightarrow> 'h option \<Rightarrow> bool" where
  "instance_true handle_true inst =
     (case inst of None \<Rightarrow> False | Some handle \<Rightarrow> handle_true handle)"

definition run ::
  "('h \<Rightarrow> bool) \<Rightarrow> ('h \<Rightarrow> 'a \<Rightarrow> 'k \<Rightarrow> error + 'r) \<Rightarrow> 'h Pipeline \<Rightarrow> 'a \<Rightarrow> 'k
     \<Rightarrow> (error + 'r) \<times> ('h \<times> 'a \<times> 'k) list" where
  "run handle_true handle_run self args kwargs =
     (if \<not> instance_true handle_true (p_instance self)
      then (Inl (ValueError ''Pipeline not saved''), [])
      else (case p_instance self of
              None \<Rightarrow> (Inl (AttributeError ''run''), [])
            | Some handle \<Rightarrow> (handle_run handle args kwargs, [(handle, args, kwargs)])))"

section \<open>The router shortcut\<close>

text \<open>
  A route of a router node. The data types (\<open>DataType\<close>) and the node objects a path
  refers to are type parameters.
\<close>

record ('dt, 'n) Route =
  route_value :: 'dt
  path :: "'n list"
  route_type :: RouteType
  operation :: Operation

text \<open>A keyword argument of a node constructor: the routes, or any other value.\<close>

datatype ('dt, 'n) kwarg = Routes "('dt, 'n) Route list" | Other pyval

text \<open>
  \<open>router\<close> sets \<open>kwargs["routes"]\<close> to the list of routes it builds from the pairs and
  calls the constructor \<open>Router\<close> (of \<^verbatim>\<open>nodes.py\<close>, a parameter here) with the
  pipeline, the positional arguments and the keyword arguments.
\<close>

definition router ::
  "('s \<Rightarrow> 'a \<Rightarrow> (string \<times> ('dt, 'n) kwarg) list \<Rightarrow> 'r) \<Rightarrow> 's \<Rightarrow> ('dt \<times> 'n) list \<Rightarrow> 'a
     \<Rightarrow> (string \<times> ('dt, 'n) kwarg) list \<Rightarrow> 'r" where
  "router Router self routes args kwargs =
     Router self args
       (AList.update ''routes''
          (Routes (map (\<lambda>route. \<lparr>route_value = fst route, path = [snd route],
                                 route_type = CHECK_TYPE, operation = EQUAL\<rparr>) routes))
          kwargs)"

section \<open>Properties of the validator\<close>

lemma fold_upd_dom:
  "dom (fold (\<lambda>link m. m(k link \<mapsto> link)) ls m0) = dom m0 \<union> k ` set ls"
  by (induction ls arbitrary: m0) auto

lemma link_from_map_None: "(link_from_map ls n = None) = (n \<notin> from_node ` set ls)"
proof -
  have "(link_from_map ls n = None) = (n \<notin> dom (link_from_map ls))"
    by (simp add: domIff)
  then show ?thesis
    by (simp add: link_from_map_def fold_upd_dom)
qed

lemma link_to_map_None: "(link_to_map ls n = None) = (n \<notin> to_node ` set ls)"
proof -
  have "(link_to_map ls n = None) = (n \<notin> dom (link_to_map ls))"
    by (simp add: domIff)
  then show ?thesis
    by (simp add: link_to_map_def fold_upd_dom)
qed

lemma check_node_INPUT:
  "node_type node = INPUT \<Longrightarrow>
   check_node (link_from_map ls) (link_to_map ls) node =
     (if number node \<in> from_node ` set ls then Inr ()
      else Inl (ValueError (''Input node '' @ label node @ '' not linked out'')))"
  by (simp add: check_node_def link_from_map_None)

lemma check_node_OUTPUT:
  "node_type node = OUTPUT \<Longrightarrow>
   check_node (link_from_map ls) (link_to_map ls) node =
     (if number node \<in> to_node ` set ls then Inr ()
      else Inl (ValueError (''Output node '' @ label node @ '' not linked in'')))"
  by (simp add: check_node_def link_to_map_None)

lemma check_node_other:
  "node_type node \<noteq> INPUT \<Longrightarrow> node_type node \<noteq> OUTPUT \<Longrightarrow>
   check_node (link_from_map ls) (link_to_map ls) node =
     (if number node \<notin> from_node ` set ls
      then Inl (ValueError (''Node '' @ label node @ '' not linked in''))
      else if number node \<notin> to_node ` set ls
      then Inl (ValueError (''Node '' @ label node @ '' not linked out''))
      else Inr ())"
  by (simp add: check_node_def link_from_map_None link_to_map_None)

lemma validate_nodes_append:
  "validate_nodes fm tm (pre @ post) =
     (case validate_nodes fm tm pre of Inl e \<Rightarrow> Inl e | Inr _ \<Rightarrow> validate_nodes fm tm post)"
  by (induction pre) (auto split: sum.splits)

lemma validate_nodes_ok_iff:
  "(validate_nodes fm tm ns = Inr ()) = (\<forall>n \<in> set ns. check_node fm tm n = Inr ())"
  by (induction ns) (auto split: sum.splits)

lemma validate_nodes_fails:
  "n \<in> set ns \<Longrightarrow> check_node fm tm n = Inl e \<Longrightarrow> \<exists>e'. validate_nodes fm tm ns = Inl e'"
  by (induction ns) (auto split: sum.splits)

lemma validate_nodes_error_origin:
  "validate_nodes fm tm ns = Inl e \<Longrightarrow>
   \<exists>pre n post. ns = pre @ n # post \<and> validate_nodes fm tm pre = Inr () \<and> check_node fm tm n = Inl e"
proof (induction ns)
  case Nil
  then show ?case by simp
next
  case (Cons a ns)
  show ?case
  proof (cases "check_node fm tm a")
    case (Inl e')
    with Cons.prems have "e' = e" by simp
    with Inl have "a # ns = [] @ a # ns \<and> validate_nodes fm tm [] = Inr () \<and> check_node fm tm a = Inl e"
      by simp
    then show ?thesis by blast
  next
    case (Inr u)
    with Cons.prems have "validate_nodes fm tm ns = Inl e" by simp
    from Cons.IH [OF this] obtain pre n post where
      "ns = pre @ n # post" "validate_nodes fm tm pre = Inr ()" "check_node fm tm n = Inl e"
      by blast
    with Inr have "a # ns = (a # pre) @ n # post \<and> validate_nodes fm tm (a # pre) = Inr ()
        \<and> check_node fm tm n = Inl e"
      by simp
    then show ?thesis by blast
  qed
qed


lemma check_node_links_only:
  assumes "from_node ` set ls = from_node ` set ls'" and "to_node ` set ls = to_node ` set ls'"
  shows "check_node (link_from_map ls) (link_to_map ls) node
       = check_node (link_from_map ls') (link_to_map ls') node"
  using assms by (simp add: check_node_def link_from_map_None link_to_map_None)

lemma validate_nodes_links_only:
  assumes "from_node ` set ls = from_node ` set ls'" and "to_node ` set ls = to_node ` set ls'"
  shows "validate_nodes (link_from_map ls) (link_to_map ls) ns
       = validate_nodes (link_from_map ls') (link_to_map ls') ns"
proof (induction ns)
  case Nil
  show ?case by simp
next
  case (Cons a ns)
  have "check_node (link_from_map ls) (link_to_map ls) a
      = check_node (link_from_map ls') (link_to_map ls') a"
    using assms by (rule check_node_links_only)
  with Cons.IH show ?case by (simp split: sum.splits)
qed

text \<open>
  Claim C1. A node that is neither INPUT nor OUTPUT is checked for both directions, and
  the check raises exactly when its number is missing as a link source or as a link
  target (lemma \<open>check_node_other\<close>). The message names the wrong direction: for a node
  that is the target of a link and the source of none, the code says "not linked in".
\<close>

theorem validate_inner_node_direction_swapped:
  "validate \<lparr>nodes = [\<lparr>number = 2, label = ''A'', node_type = ASSET\<rparr>],
             links = [\<lparr>from_node = 1, to_node = 2, paramMapping = None\<rparr>],
             p_instance = (None :: unit option)\<rparr>
     = Inl (ValueError ''Node A not linked in'')
   \<and> validate \<lparr>nodes = [\<lparr>number = 2, label = ''A'', node_type = ASSET\<rparr>],
             links = [\<lparr>from_node = 2, to_node = 3, paramMapping = None\<rparr>],
             p_instance = (None :: unit option)\<rparr>
     = Inl (ValueError ''Node A not linked out'')"
  by (simp add: validate_def check_node_def link_from_map_def link_to_map_def)

text \<open>
  Claim C2, as amended. The check \<open>validate\<close> makes of an INPUT node raises the
  \<open>ValueError\<close> "Input node (label) not linked out" (the spec's StructuralError) exactly
  when the node's number is not the \<open>from_node\<close> of any link, and passes otherwise.
  \<open>validate\<close> checks the nodes in the order of the node list and stops at the first that
  fails: an INPUT node of the pipeline that is not linked out makes \<open>validate\<close> raise; and
  when every node before the INPUT node passes its check, \<open>validate\<close> raises this node's
  error if the node is not linked out and goes on with the nodes after it if it is.
\<close>

theorem validate_input_not_linked_out:
  fixes p :: "'h Pipeline"
  assumes "node \<in> set (nodes p)" and "node_type node = INPUT"
  shows "(check_node (link_from_map (links p)) (link_to_map (links p)) node
            = Inl (ValueError (''Input node '' @ label node @ '' not linked out'')))
          = (number node \<notin> from_node ` set (links p))
       \<and> (check_node (link_from_map (links p)) (link_to_map (links p)) node = Inr ())
          = (number node \<in> from_node ` set (links p))
       \<and> (number node \<notin> from_node ` set (links p) \<longrightarrow> (\<exists>e. validate p = Inl e))
       \<and> (\<forall>pre post. nodes p = pre @ node # post
             \<and> validate_nodes (link_from_map (links p)) (link_to_map (links p)) pre = Inr ()
           \<longrightarrow> validate p =
                 (if number node \<notin> from_node ` set (links p)
                  then Inl (ValueError (''Input node '' @ label node @ '' not linked out''))
                  else validate_nodes (link_from_map (links p)) (link_to_map (links p)) post))"
proof -
  let ?fm = "link_from_map (links p)" and ?tm = "link_to_map (links p)"
  have chk: "check_node ?fm ?tm node =
     (if number node \<in> from_node ` set (links p) then Inr ()
      else Inl (ValueError (''Input node '' @ label node @ '' not linked out'')))"
    using assms(2) by (rule check_node_INPUT)
  have a: "(check_node ?fm ?tm node
            = Inl (ValueError (''Input node '' @ label node @ '' not linked out'')))
          = (number node \<notin> from_node ` set (links p))"
    by (simp add: chk)
  have b: "(check_node ?fm ?tm node = Inr ()) = (number node \<in> from_node ` set (links p))"
    by (simp add: chk)
  have c: "number node \<notin> from_node ` set (links p) \<longrightarrow> (\<exists>e. validate p = Inl e)"
  proof
    assume "number node \<notin> from_node ` set (links p)"
    then have "check_node ?fm ?tm node
        = Inl (ValueError (''Input node '' @ label node @ '' not linked out''))"
      by (simp add: chk)
    with assms(1) show "\<exists>e. validate p = Inl e"
      unfolding validate_def by (rule validate_nodes_fails)
  qed
  have d: "\<forall>pre post. nodes p = pre @ node # post \<and> validate_nodes ?fm ?tm pre = Inr ()
           \<longrightarrow> validate p =
                 (if number node \<notin> from_node ` set (links p)
                  then Inl (ValueError (''Input node '' @ label node @ '' not linked out''))
                  else validate_nodes ?fm ?tm post)"
    by (simp add: validate_def validate_nodes_append chk)
  from a b c d show ?thesis by blast
qed

theorem validate_input_not_linked_out_witness:
  "validate \<lparr>nodes = [\<lparr>number = 1, label = ''in'', node_type = INPUT\<rparr>,
                       \<lparr>number = 2, label = ''model'', node_type = ASSET\<rparr>,
                       \<lparr>number = 3, label = ''out'', node_type = OUTPUT\<rparr>],
             links = [\<lparr>from_node = 2, to_node = 3, paramMapping = None\<rparr>],
             p_instance = (None :: unit option)\<rparr>
     = Inl (ValueError ''Input node in not linked out'')"
proof -
  let ?n = "\<lparr>number = 1, label = ''in'', node_type = INPUT\<rparr>"
  let ?rest = "[\<lparr>number = 2, label = ''model'', node_type = ASSET\<rparr>,
                \<lparr>number = 3, label = ''out'', node_type = OUTPUT\<rparr>]"
  let ?p = "\<lparr>nodes = ?n # ?rest,
             links = [\<lparr>from_node = 2, to_node = 3, paramMapping = None\<rparr>],
             p_instance = (None :: unit option)\<rparr>"
  have m: "?n \<in> set (nodes ?p)" by simp
  have t: "node_type ?n = INPUT" by simp
  note th = validate_input_not_linked_out [OF m t]
  have "validate ?p =
          (if number ?n \<notin> from_node ` set (links ?p)
           then Inl (ValueError (''Input node '' @ label ?n @ '' not linked out''))
           else validate_nodes (link_from_map (links ?p)) (link_to_map (links ?p)) ?rest)"
    by (rule th [THEN conjunct2, THEN conjunct2, THEN conjunct2, rule_format, of "[]" ?rest])
       simp
  then show ?thesis by simp
qed

text \<open>
  Claim C2 as stated is about what \<open>validate\<close> raises, for every INPUT node. With an
  OUTPUT node that is not linked in before an INPUT node that is not linked out,
  \<open>validate\<close> raises the error of the OUTPUT node, not one that names the INPUT node.
  And with two INPUT nodes of the same label, the first linked out and the second not,
  \<open>validate\<close> raises "Input node i not linked out" although the number of the first is
  the \<open>from_node\<close> of a link.
\<close>

theorem validate_input_counterexample:
  "validate \<lparr>nodes = [\<lparr>number = 3, label = ''o'', node_type = OUTPUT\<rparr>,
                       \<lparr>number = 1, label = ''i'', node_type = INPUT\<rparr>],
             links = [], p_instance = (None :: unit option)\<rparr>
     = Inl (ValueError ''Output node o not linked in'')
   \<and> validate \<lparr>nodes = [\<lparr>number = 3, label = ''o'', node_type = OUTPUT\<rparr>,
                       \<lparr>number = 1, label = ''i'', node_type = INPUT\<rparr>],
             links = [], p_instance = (None :: unit option)\<rparr>
     \<noteq> Inl (ValueError ''Input node i not linked out'')
   \<and> number \<lparr>number = 1, label = ''i'', node_type = INPUT\<rparr>
        \<notin> from_node ` set ([] :: Link list)
   \<and> validate \<lparr>nodes = [\<lparr>number = 1, label = ''i'', node_type = INPUT\<rparr>,
                         \<lparr>number = 2, label = ''o'', node_type = OUTPUT\<rparr>,
                         \<lparr>number = 5, label = ''i'', node_type = INPUT\<rparr>],
               links = [\<lparr>from_node = 1, to_node = 2, paramMapping = None\<rparr>],
               p_instance = (None :: unit option)\<rparr>
     = Inl (ValueError ''Input node i not linked out'')
   \<and> number \<lparr>number = 1, label = ''i'', node_type = INPUT\<rparr>
        \<in> from_node ` set [\<lparr>from_node = 1, to_node = 2, paramMapping = None\<rparr>]"
  by (simp add: validate_def check_node_def link_from_map_def link_to_map_def)

text \<open>
  Claim C3, as amended. The check \<open>validate\<close> makes of an OUTPUT node raises the
  \<open>ValueError\<close> "Output node (label) not linked in" (the spec's StructuralError) exactly
  when the node's number is not the \<open>to_node\<close> of any link, and passes otherwise.
  \<open>validate\<close> checks the nodes in the order of the node list and stops at the first that
  fails: an OUTPUT node of the pipeline that is not linked in makes \<open>validate\<close> raise; and
  when every node before the OUTPUT node passes its check, \<open>validate\<close> raises this node's
  error if the node is not linked in and goes on with the nodes after it if it is.
\<close>

theorem validate_output_not_linked_in:
  fixes p :: "'h Pipeline"
  assumes "node \<in> set (nodes p)" and "node_type node = OUTPUT"
  shows "(check_node (link_from_map (links p)) (link_to_map (links p)) node
            = Inl (ValueError (''Output node '' @ label node @ '' not linked in'')))
          = (number node \<notin> to_node ` set (links p))
       \<and> (check_node (link_from_map (links p)) (link_to_map (links p)) node = Inr ())
          = (number node \<in> to_node ` set (links p))
       \<and> (number node \<notin> to_node ` set (links p) \<longrightarrow> (\<exists>e. validate p = Inl e))
       \<and> (\<forall>pre post. nodes p = pre @ node # post
             \<and> validate_nodes (link_from_map (links p)) (link_to_map (links p)) pre = Inr ()
           \<longrightarrow> validate p =
                 (if number node \<notin> to_node ` set (links p)
                  then Inl (ValueError (''Output node '' @ label node @ '' not linked in''))
                  else validate_nodes (link_from_map (links p)) (link_to_map (links p)) post))"
proof -
  let ?fm = "link_from_map (links p)" and ?tm = "link_to_map (links p)"
  have chk: "check_node ?fm ?tm node =
     (if number node \<in> to_node ` set (links p) then Inr ()
      else Inl (ValueError (''Output node '' @ label node @ '' not linked in'')))"
    using assms(2) by (rule check_node_OUTPUT)
  have a: "(check_node ?fm ?tm node
            = Inl (ValueError (''Output node '' @ label node @ '' not linked in'')))
          = (number node \<notin> to_node ` set (links p))"
    by (simp add: chk)
  have b: "(check_node ?fm ?tm node = Inr ()) = (number node \<in> to_node ` set (links p))"
    by (simp add: chk)
  have c: "number node \<notin> to_node ` set (links p) \<longrightarrow> (\<exists>e. validate p = Inl e)"
  proof
    assume "number node \<notin> to_node ` set (links p)"
    then have "check_node ?fm ?tm node
        = Inl (ValueError (''Output node '' @ label node @ '' not linked in''))"
      by (simp add: chk)
    with assms(1) show "\<exists>e. validate p = Inl e"
      unfolding validate_def by (rule validate_nodes_fails)
  qed
  have d: "\<forall>pre post. nodes p = pre @ node # post \<and> validate_nodes ?fm ?tm pre = Inr ()
           \<longrightarrow> validate p =
                 (if number node \<notin> to_node ` set (links p)
                  then Inl (ValueError (''Output node '' @ label node @ '' not linked in''))
                  else validate_nodes ?fm ?tm post)"
    by (simp add: validate_def validate_nodes_append chk)
  from a b c d show ?thesis by blast
qed

theorem validate_output_not_linked_in_witness:
  "validate \<lparr>nodes = [\<lparr>number = 1, label = ''in'', node_type = INPUT\<rparr>,
                       \<lparr>number = 2, label = ''first'', node_type = OUTPUT\<rparr>,
                       \<lparr>number = 3, label = ''out'', node_type = OUTPUT\<rparr>],
             links = [\<lparr>from_node = 1, to_node = 2, paramMapping = None\<rparr>],
             p_instance = (None :: unit option)\<rparr>
     = Inl (ValueError ''Output node out not linked in'')"
proof -
  let ?i = "\<lparr>number = 1, label = ''in'', node_type = INPUT\<rparr>"
  let ?f = "\<lparr>number = 2, label = ''first'', node_type = OUTPUT\<rparr>"
  let ?n = "\<lparr>number = 3, label = ''out'', node_type = OUTPUT\<rparr>"
  let ?p = "\<lparr>nodes = [?i, ?f, ?n],
             links = [\<lparr>from_node = 1, to_node = 2, paramMapping = None\<rparr>],
             p_instance = (None :: unit option)\<rparr>"
  have m: "?n \<in> set (nodes ?p)" by simp
  have t: "node_type ?n = OUTPUT" by simp
  note th = validate_output_not_linked_in [OF m t]
  have "validate ?p =
          (if number ?n \<notin> to_node ` set (links ?p)
           then Inl (ValueError (''Output node '' @ label ?n @ '' not linked in''))
           else validate_nodes (link_from_map (links ?p)) (link_to_map (links ?p)) [])"
    by (rule th [THEN conjunct2, THEN conjunct2, THEN conjunct2, rule_format,
                 of "[?i, ?f]" "[]"])
       (simp add: check_node_def link_from_map_def link_to_map_def)
  then show ?thesis by simp
qed

text \<open>
  Claim C3 as stated is about what \<open>validate\<close> raises, for every OUTPUT node. In the
  graph of an INPUT node 1, an ASSET node 2 and an OUTPUT node 3 with the link (1, 2)
  only, the number of the OUTPUT node is the \<open>to_node\<close> of no link, and \<open>validate\<close>
  raises the error of the ASSET node, which comes first, not one that names the OUTPUT
  node.
\<close>

theorem validate_output_counterexample:
  "validate \<lparr>nodes = [\<lparr>number = 1, label = ''in'', node_type = INPUT\<rparr>,
                       \<lparr>number = 2, label = ''model'', node_type = ASSET\<rparr>,
                       \<lparr>number = 3, label = ''out'', node_type = OUTPUT\<rparr>],
             links = [\<lparr>from_node = 1, to_node = 2, paramMapping = None\<rparr>],
             p_instance = (None :: unit option)\<rparr>
     = Inl (ValueError ''Node model not linked in'')
   \<and> validate \<lparr>nodes = [\<lparr>number = 1, label = ''in'', node_type = INPUT\<rparr>,
                       \<lparr>number = 2, label = ''model'', node_type = ASSET\<rparr>,
                       \<lparr>number = 3, label = ''out'', node_type = OUTPUT\<rparr>],
             links = [\<lparr>from_node = 1, to_node = 2, paramMapping = None\<rparr>],
             p_instance = (None :: unit option)\<rparr>
     \<noteq> Inl (ValueError ''Output node out not linked in'')
   \<and> number \<lparr>number = 3, label = ''out'', node_type = OUTPUT\<rparr>
        \<notin> to_node ` set [\<lparr>from_node = 1, to_node = 2, paramMapping = None\<rparr>]"
  by (simp add: validate_def check_node_def link_from_map_def link_to_map_def)

text \<open>
  Claim C4. The pipeline of an INPUT node 1, an ASSET node 2 and an OUTPUT node 3 with the
  links (1, 2) and (2, 3) passes \<open>validate\<close>, whatever the labels and parameter mappings.
  Validation depends on the links only through the set of their sources and the set of
  their targets: two pipelines with the same nodes and the same two sets validate alike,
  however many links share a source or a target.
\<close>

theorem validate_minimal_graph:
  "validate \<lparr>nodes = [\<lparr>number = 1, label = l1, node_type = INPUT\<rparr>,
                       \<lparr>number = 2, label = l2, node_type = ASSET\<rparr>,
                       \<lparr>number = 3, label = l3, node_type = OUTPUT\<rparr>],
             links = [\<lparr>from_node = 1, to_node = 2, paramMapping = m1\<rparr>,
                      \<lparr>from_node = 2, to_node = 3, paramMapping = m2\<rparr>],
             p_instance = i\<rparr> = Inr ()
   \<and> (\<forall>(p :: 'h Pipeline) (q :: 'h Pipeline). nodes p = nodes q
         \<and> from_node ` set (links p) = from_node ` set (links q)
         \<and> to_node ` set (links p) = to_node ` set (links q)
        \<longrightarrow> validate p = validate q)"
proof -
  have "validate \<lparr>nodes = [\<lparr>number = 1, label = l1, node_type = INPUT\<rparr>,
                       \<lparr>number = 2, label = l2, node_type = ASSET\<rparr>,
                       \<lparr>number = 3, label = l3, node_type = OUTPUT\<rparr>],
             links = [\<lparr>from_node = 1, to_node = 2, paramMapping = m1\<rparr>,
                      \<lparr>from_node = 2, to_node = 3, paramMapping = m2\<rparr>],
             p_instance = i\<rparr> = Inr ()"
    by (simp add: validate_def check_node_def link_from_map_def link_to_map_def)
  moreover have "\<forall>(p :: 'h Pipeline) (q :: 'h Pipeline). nodes p = nodes q
         \<and> from_node ` set (links p) = from_node ` set (links q)
         \<and> to_node ` set (links p) = to_node ` set (links q)
        \<longrightarrow> validate p = validate q"
  proof (intro allI impI)
    fix p q :: "'h Pipeline"
    assume h: "nodes p = nodes q
         \<and> from_node ` set (links p) = from_node ` set (links q)
         \<and> to_node ` set (links p) = to_node ` set (links q)"
    have "validate_nodes (link_from_map (links p)) (link_to_map (links p)) (nodes p)
             = validate_nodes (link_from_map (links q)) (link_to_map (links q)) (nodes p)"
      by (rule validate_nodes_links_only) (simp_all add: h)
    with h show "validate p = validate q"
      by (simp add: validate_def)
  qed
  ultimately show ?thesis by (rule conjI)
qed

theorem validate_minimal_graph_witness:
  "validate \<lparr>nodes = [\<lparr>number = 1, label = ''in'', node_type = INPUT\<rparr>,
                       \<lparr>number = 2, label = ''model'', node_type = ASSET\<rparr>,
                       \<lparr>number = 3, label = ''out'', node_type = OUTPUT\<rparr>],
             links = [\<lparr>from_node = 1, to_node = 2, paramMapping = None\<rparr>,
                      \<lparr>from_node = 1, to_node = 2, paramMapping = Some []\<rparr>,
                      \<lparr>from_node = 2, to_node = 3, paramMapping = None\<rparr>,
                      \<lparr>from_node = 1, to_node = 2, paramMapping = None\<rparr>],
             p_instance = (None :: unit option)\<rparr> = Inr ()"
proof -
  let ?ns = "[\<lparr>number = 1, label = ''in'', node_type = INPUT\<rparr>,
                       \<lparr>number = 2, label = ''model'', node_type = ASSET\<rparr>,
                       \<lparr>number = 3, label = ''out'', node_type = OUTPUT\<rparr>]"
  let ?q = "\<lparr>nodes = ?ns,
             links = [\<lparr>from_node = 1, to_node = 2, paramMapping = None\<rparr>,
                      \<lparr>from_node = 2, to_node = 3, paramMapping = None\<rparr>],
             p_instance = (None :: unit option)\<rparr>"
  let ?p = "\<lparr>nodes = ?ns,
             links = [\<lparr>from_node = 1, to_node = 2, paramMapping = None\<rparr>,
                      \<lparr>from_node = 1, to_node = 2, paramMapping = Some []\<rparr>,
                      \<lparr>from_node = 2, to_node = 3, paramMapping = None\<rparr>,
                      \<lparr>from_node = 1, to_node = 2, paramMapping = None\<rparr>],
             p_instance = (None :: unit option)\<rparr>"
  note t = validate_minimal_graph [of "''in''" "''model''" "''out''" None None "None :: unit option"]
  have ok: "validate ?q = Inr ()" by (rule t [THEN conjunct1])
  have sets: "from_node ` set (links ?p) = from_node ` set (links ?q)"
    "to_node ` set (links ?p) = to_node ` set (links ?q)"
    by (simp_all add: insert_commute)
  have "validate ?p = validate ?q"
    by (rule t [THEN conjunct2, rule_format, of ?p ?q]) (simp add: insert_commute)
  with ok show ?thesis by simp
qed

section \<open>Properties of the serialization\<close>

lemma map_err_map:
  "(\<And>x. x \<in> set xs \<Longrightarrow> f (g x) = Inr (h x)) \<Longrightarrow> map_err f (map g xs) = Inr (map h xs)"
  by (induction xs) simp_all

lemma rename_param_asdict:
  "rename_param (asdict_ParamMapping pm)
     = Inr (PDict [(''from'', PStr (from_param pm)), (''to'', PStr (to_param pm))])"
  by (simp add: asdict_ParamMapping_def dict_pop_def dict_set_def)

lemma rename_link_asdict:
  "rename_link (asdict_Link l)
     = Inr (PDict [(''paramMapping'',
                      (case paramMapping l of
                         None \<Rightarrow> PNone
                       | Some pms \<Rightarrow>
                           PList (map (\<lambda>pm. PDict [(''from'', PStr (from_param pm)),
                                                    (''to'', PStr (to_param pm))]) pms))),
                   (''from'', PInt (from_node l)), (''to'', PInt (to_node l))])"
proof (cases "paramMapping l")
  case None
  then show ?thesis
    by (simp add: asdict_Link_def dict_pop_def dict_set_def dict_get_def)
next
  case (Some pms)
  show ?thesis
  proof (cases pms)
    case Nil
    with Some show ?thesis
      by (simp add: asdict_Link_def dict_pop_def dict_set_def dict_get_def)
  next
    case (Cons a as)
    have m: "map_err rename_param (map asdict_ParamMapping pms)
        = Inr (map (\<lambda>pm. PDict [(''from'', PStr (from_param pm)),
                                                    (''to'', PStr (to_param pm))]) pms)"
      by (rule map_err_map) (rule rename_param_asdict)
    from Some Cons m show ?thesis
      by (simp add: asdict_Link_def dict_pop_def dict_set_def dict_get_def)
  qed
qed

lemma to_dict_value:
  "to_dict p =
     Inr (PDict
       [(''nodes'', PList (map asdict_Node (nodes p))),
        (''links'',
           PList (map (\<lambda>l. PDict
                    [(''paramMapping'',
                        (case paramMapping l of
                           None \<Rightarrow> PNone
                         | Some pms \<Rightarrow>
                             PList (map (\<lambda>pm. PDict [(''from'', PStr (from_param pm)),
                                                      (''to'', PStr (to_param pm))]) pms))),
                     (''from'', PInt (from_node l)),
                     (''to'', PInt (to_node l))]) (links p)))])"
proof -
  have "map_err rename_link (map asdict_Link (links p)) =
      Inr (map (\<lambda>l. PDict
                    [(''paramMapping'',
                        (case paramMapping l of
                           None \<Rightarrow> PNone
                         | Some pms \<Rightarrow>
                             PList (map (\<lambda>pm. PDict [(''from'', PStr (from_param pm)),
                                                      (''to'', PStr (to_param pm))]) pms))),
                     (''from'', PInt (from_node l)),
                     (''to'', PInt (to_node l))]) (links p))"
    by (rule map_err_map) (rule rename_link_asdict)
  then show ?thesis
    by (simp add: to_dict_def asdict_Pipeline_def dict_set_def)
qed

text \<open>
  Claim C7. \<open>to_dict\<close> never raises and returns the dictionary with the keys \<open>nodes\<close> and
  \<open>links\<close>: the nodes in the order of the node list, each as \<open>asdict\<close> gives it, and the
  links in the order of the link list, each with the keys \<open>paramMapping\<close>, \<open>from\<close> and
  \<open>to\<close> (no \<open>from_node\<close>, no \<open>to_node\<close>), and each entry of a parameter mapping with
  the keys \<open>from\<close> and \<open>to\<close> (no \<open>from_param\<close>, no \<open>to_param\<close>). The link of the
  spec's example serializes to a dictionary equal, as Python compares dictionaries, to
  \<open>{"from": 1, "to": 2, "paramMapping": [{"from": "x", "to": "y"}]}\<close>.
\<close>

theorem to_dict_renames:
  "to_dict p =
     Inr (PDict
       [(''nodes'', PList (map asdict_Node (nodes p))),
        (''links'',
           PList (map (\<lambda>l. PDict
                    [(''paramMapping'',
                        (case paramMapping l of
                           None \<Rightarrow> PNone
                         | Some pms \<Rightarrow>
                             PList (map (\<lambda>pm. PDict [(''from'', PStr (from_param pm)),
                                                      (''to'', PStr (to_param pm))]) pms))),
                     (''from'', PInt (from_node l)),
                     (''to'', PInt (to_node l))]) (links p)))])
   \<and> (\<exists>r. to_dict \<lparr>nodes = [],
                     links = [\<lparr>from_node = 1, to_node = 2,
                               paramMapping = Some [\<lparr>from_param = ''x'', to_param = ''y''\<rparr>]\<rparr>],
                     p_instance = i\<rparr>
             = Inr (PDict [(''nodes'', PList []), (''links'', PList [r])])
          \<and> py_eq r (PDict [(''from'', PInt 1), (''to'', PInt 2),
                             (''paramMapping'',
                                PList [PDict [(''from'', PStr ''x''), (''to'', PStr ''y'')]])]))"
proof
  show "to_dict p =
     Inr (PDict
       [(''nodes'', PList (map asdict_Node (nodes p))),
        (''links'',
           PList (map (\<lambda>l. PDict
                    [(''paramMapping'',
                        (case paramMapping l of
                           None \<Rightarrow> PNone
                         | Some pms \<Rightarrow>
                             PList (map (\<lambda>pm. PDict [(''from'', PStr (from_param pm)),
                                                      (''to'', PStr (to_param pm))]) pms))),
                     (''from'', PInt (from_node l)),
                     (''to'', PInt (to_node l))]) (links p)))])"
    by (rule to_dict_value)
next
  let ?r = "PDict [(''paramMapping'', PList [PDict [(''from'', PStr ''x''), (''to'', PStr ''y'')]]),
                   (''from'', PInt 1), (''to'', PInt 2)]"
  have "to_dict \<lparr>nodes = [],
                     links = [\<lparr>from_node = 1, to_node = 2,
                               paramMapping = Some [\<lparr>from_param = ''x'', to_param = ''y''\<rparr>]\<rparr>],
                     p_instance = i\<rparr>
             = Inr (PDict [(''nodes'', PList []), (''links'', PList [?r])])"
    by (simp add: to_dict_value)
  moreover have "py_eq ?r (PDict [(''from'', PInt 1), (''to'', PInt 2),
                             (''paramMapping'',
                                PList [PDict [(''from'', PStr ''x''), (''to'', PStr ''y'')]])])"
    by simp
  ultimately show "\<exists>r. to_dict \<lparr>nodes = [],
                     links = [\<lparr>from_node = 1, to_node = 2,
                               paramMapping = Some [\<lparr>from_param = ''x'', to_param = ''y''\<rparr>]\<rparr>],
                     p_instance = i\<rparr>
             = Inr (PDict [(''nodes'', PList []), (''links'', PList [r])])
          \<and> py_eq r (PDict [(''from'', PInt 1), (''to'', PInt 2),
                             (''paramMapping'',
                                PList [PDict [(''from'', PStr ''x''), (''to'', PStr ''y'')]])])"
    by blast
qed

text \<open>
  Claim C5. If \<open>validate\<close> raises, \<open>save\<close> raises the same error, the log of calls to the
  collaborator is as before and the pipeline, its \<open>instance\<close> included, is unchanged. If
  \<open>validate\<close> passes, \<open>save\<close> calls the collaborator once with the name
  \<open>pipeline-\<close> followed by the drawn identifier and with the serialization \<open>to_dict\<close>
  gives; with the handle it returns, \<open>save\<close> stores the handle in \<open>instance\<close> and returns
  the pipeline; if the collaborator raises, the error goes through and the pipeline is
  unchanged.
\<close>

theorem save_validates_then_submits:
  "(\<forall>e. validate self = Inl e \<longrightarrow> save create uuid4 self calls = (Inl e, self, calls))
   \<and> (validate self = Inr () \<longrightarrow>
        (\<exists>graph. to_dict self = Inr graph \<and>
           (\<forall>handle. create (''pipeline-'' @ uuid4) graph = Inr handle \<longrightarrow>
              save create uuid4 self calls =
                (Inr (self\<lparr>p_instance := Some handle\<rparr>), self\<lparr>p_instance := Some handle\<rparr>,
                 calls @ [(''pipeline-'' @ uuid4, graph)])) \<and>
           (\<forall>e. create (''pipeline-'' @ uuid4) graph = Inl e \<longrightarrow>
              save create uuid4 self calls =
                (Inl e, self, calls @ [(''pipeline-'' @ uuid4, graph)]))))"
proof (intro conjI allI impI)
  fix e
  assume "validate self = Inl e"
  then show "save create uuid4 self calls = (Inl e, self, calls)"
    by (simp add: save_def)
next
  assume v: "validate self = Inr ()"
  obtain graph where g: "to_dict self = Inr graph"
    using to_dict_value [of self] by blast
  have ok: "\<forall>handle. create (''pipeline-'' @ uuid4) graph = Inr handle \<longrightarrow>
              save create uuid4 self calls =
                (Inr (self\<lparr>p_instance := Some handle\<rparr>), self\<lparr>p_instance := Some handle\<rparr>,
                 calls @ [(''pipeline-'' @ uuid4, graph)])"
    using v g by (simp add: save_def Let_def)
  have ko: "\<forall>e. create (''pipeline-'' @ uuid4) graph = Inl e \<longrightarrow>
              save create uuid4 self calls =
                (Inl e, self, calls @ [(''pipeline-'' @ uuid4, graph)])"
    using v g by (simp add: save_def Let_def)
  from g ok ko show "\<exists>graph. to_dict self = Inr graph \<and>
           (\<forall>handle. create (''pipeline-'' @ uuid4) graph = Inr handle \<longrightarrow>
              save create uuid4 self calls =
                (Inr (self\<lparr>p_instance := Some handle\<rparr>), self\<lparr>p_instance := Some handle\<rparr>,
                 calls @ [(''pipeline-'' @ uuid4, graph)])) \<and>
           (\<forall>e. create (''pipeline-'' @ uuid4) graph = Inl e \<longrightarrow>
              save create uuid4 self calls =
                (Inl e, self, calls @ [(''pipeline-'' @ uuid4, graph)]))"
    by blast
qed


theorem save_validates_then_submits_witness:
  "save (\<lambda>name graph. Inr (length name)) ''0001''
      \<lparr>nodes = [\<lparr>number = 1, label = ''in'', node_type = INPUT\<rparr>], links = [],
       p_instance = Some 7\<rparr> []
     = (Inl (ValueError ''Input node in not linked out''),
        \<lparr>nodes = [\<lparr>number = 1, label = ''in'', node_type = INPUT\<rparr>], links = [],
         p_instance = Some 7\<rparr>, [])
   \<and> save (\<lambda>name graph. Inr (length name)) ''0001''
      \<lparr>nodes = [\<lparr>number = 1, label = ''in'', node_type = INPUT\<rparr>,
                \<lparr>number = 2, label = ''out'', node_type = OUTPUT\<rparr>],
       links = [\<lparr>from_node = 1, to_node = 2, paramMapping = None\<rparr>],
       p_instance = None\<rparr> []
     = (Inr \<lparr>nodes = [\<lparr>number = 1, label = ''in'', node_type = INPUT\<rparr>,
                      \<lparr>number = 2, label = ''out'', node_type = OUTPUT\<rparr>],
             links = [\<lparr>from_node = 1, to_node = 2, paramMapping = None\<rparr>],
             p_instance = Some 13\<rparr>,
        \<lparr>nodes = [\<lparr>number = 1, label = ''in'', node_type = INPUT\<rparr>,
                  \<lparr>number = 2, label = ''out'', node_type = OUTPUT\<rparr>],
         links = [\<lparr>from_node = 1, to_node = 2, paramMapping = None\<rparr>],
         p_instance = Some 13\<rparr>,
        [(''pipeline-0001'',
          PDict [(''nodes'', PList [PDict [(''number'', PInt 1), (''label'', PStr ''in''),
                                           (''type'', PStr ''INPUT'')],
                                    PDict [(''number'', PInt 2), (''label'', PStr ''out''),
                                           (''type'', PStr ''OUTPUT'')]]),
                 (''links'', PList [PDict [(''paramMapping'', PNone), (''from'', PInt 1),
                                           (''to'', PInt 2)]])])])"
proof
  let ?create = "\<lambda>(name :: string) (graph :: pyval). (Inr (length name) :: error + nat)"
  let ?bad = "\<lparr>nodes = [\<lparr>number = 1, label = ''in'', node_type = INPUT\<rparr>], links = [],
       p_instance = Some (7 :: nat)\<rparr>"
  have v: "validate ?bad = Inl (ValueError ''Input node in not linked out'')"
    by (simp add: validate_def check_node_def link_from_map_def)
  show "save ?create ''0001'' ?bad [] = (Inl (ValueError ''Input node in not linked out''), ?bad, [])"
    by (rule save_validates_then_submits [of ?bad ?create "''0001''" "[]",
          THEN conjunct1, rule_format, OF v])
next
  let ?create = "\<lambda>(name :: string) (graph :: pyval). (Inr (length name) :: error + nat)"
  let ?good = "\<lparr>nodes = [\<lparr>number = 1, label = ''in'', node_type = INPUT\<rparr>,
                \<lparr>number = 2, label = ''out'', node_type = OUTPUT\<rparr>],
       links = [\<lparr>from_node = 1, to_node = 2, paramMapping = None\<rparr>],
       p_instance = (None :: nat option)\<rparr>"
  let ?graph = "PDict [(''nodes'', PList [PDict [(''number'', PInt 1), (''label'', PStr ''in''),
                                           (''type'', PStr ''INPUT'')],
                                    PDict [(''number'', PInt 2), (''label'', PStr ''out''),
                                           (''type'', PStr ''OUTPUT'')]]),
                 (''links'', PList [PDict [(''paramMapping'', PNone), (''from'', PInt 1),
                                           (''to'', PInt 2)]])]"
  let ?saved = "\<lparr>nodes = [\<lparr>number = 1, label = ''in'', node_type = INPUT\<rparr>,
                \<lparr>number = 2, label = ''out'', node_type = OUTPUT\<rparr>],
       links = [\<lparr>from_node = 1, to_node = 2, paramMapping = None\<rparr>],
       p_instance = Some (13 :: nat)\<rparr>"
  have v: "validate ?good = Inr ()"
    by (simp add: validate_def check_node_def link_from_map_def link_to_map_def)
  have g: "to_dict ?good = Inr ?graph"
    by (simp add: to_dict_value asdict_Node_def)
  from save_validates_then_submits [of ?good ?create "''0001''" "[]",
          THEN conjunct2, rule_format, OF v]
  obtain graph where a: "to_dict ?good = Inr graph"
    and b: "\<forall>handle. ?create (''pipeline-'' @ ''0001'') graph = Inr handle \<longrightarrow>
              save ?create ''0001'' ?good [] =
                (Inr (?good\<lparr>p_instance := Some handle\<rparr>), ?good\<lparr>p_instance := Some handle\<rparr>,
                 [] @ [(''pipeline-'' @ ''0001'', graph)])"
    by blast
  from a g have "graph = ?graph" by simp
  with b show "save ?create ''0001'' ?good [] =
     (Inr ?saved, ?saved, [(''pipeline-0001'', ?graph)])"
    by simp
qed

text \<open>
  Claim C6, as amended. \<open>run\<close> raises the \<open>ValueError\<close> (the spec's InvalidStateError)
  with the message "Pipeline not saved", without calling the handle, exactly when
  \<open>instance\<close> is false in Python's sense: unset (\<open>None\<close>), or a stored handle that counts as
  false. With a stored handle that counts as true, \<open>run\<close> calls the handle's \<open>run\<close> once,
  on the same positional and keyword arguments, and returns what it returns or raises
  what it raises. After a \<open>save\<close> that succeeded, the handle it got is stored.
\<close>

theorem run_forwards_to_handle:
  "(run (handle_true :: 'h \<Rightarrow> bool) handle_run self args kwargs
      = (Inl (ValueError ''Pipeline not saved''), []))
     = (\<not> instance_true handle_true (p_instance self))
   \<and> (p_instance self = None \<longrightarrow> \<not> instance_true handle_true (p_instance self))
   \<and> (\<forall>handle. p_instance self = Some handle \<longrightarrow>
         instance_true handle_true (p_instance self) = handle_true handle)
   \<and> (\<forall>handle. p_instance self = Some handle \<and> handle_true handle \<longrightarrow>
         run handle_true handle_run self args kwargs
           = (handle_run handle args kwargs, [(handle, args, kwargs)]))
   \<and> (\<forall>create uuid4 calls self' st.
         save create uuid4 self calls = (Inr self', st) \<longrightarrow>
         (\<exists>handle. p_instance self' = Some handle \<and>
            (handle_true handle \<longrightarrow>
               run handle_true handle_run self' args kwargs
                 = (handle_run handle args kwargs, [(handle, args, kwargs)]))))"
proof (intro conjI allI impI)
  show "(run handle_true handle_run self args kwargs
      = (Inl (ValueError ''Pipeline not saved''), []))
     = (\<not> instance_true handle_true (p_instance self))"
    by (cases "p_instance self") (simp_all add: run_def instance_true_def)
next
  assume "p_instance self = None"
  then show "\<not> instance_true handle_true (p_instance self)"
    by (simp add: instance_true_def)
next
  fix handle
  assume "p_instance self = Some handle"
  then show "instance_true handle_true (p_instance self) = handle_true handle"
    by (simp add: instance_true_def)
next
  fix handle
  assume "p_instance self = Some handle \<and> handle_true handle"
  then show "run handle_true handle_run self args kwargs
           = (handle_run handle args kwargs, [(handle, args, kwargs)])"
    by (simp add: run_def instance_true_def)
next
  fix create :: "string \<Rightarrow> pyval \<Rightarrow> error + 'h"
  fix uuid4 calls self' st
  assume "save create uuid4 self calls = (Inr self', st)"
  then obtain handle where "self' = self\<lparr>p_instance := Some handle\<rparr>"
    by (auto simp: save_def Let_def split: sum.splits)
  then have "p_instance self' = Some handle \<and>
            (handle_true handle \<longrightarrow>
               run handle_true handle_run self' args kwargs
                 = (handle_run handle args kwargs, [(handle, args, kwargs)]))"
    by (simp add: run_def instance_true_def)
  then show "\<exists>handle. p_instance self' = Some handle \<and>
            (handle_true handle \<longrightarrow>
               run handle_true handle_run self' args kwargs
                 = (handle_run handle args kwargs, [(handle, args, kwargs)]))"
    by blast
qed

text \<open>
  Claim C6 as stated fails in three ways. The message of the code begins with a capital
  letter, where the claim has "pipeline not saved". A stored handle that counts as false
  (here the handle \<open>0\<close>, with the truth value of a number) makes \<open>run\<close> raise although
  \<open>instance\<close> is set. And with a handle stored and true, \<open>run\<close> still ends in this very
  error when the handle's own \<open>run\<close> raises it.
\<close>

theorem run_message_counterexample:
  "fst (run (\<lambda>handle :: unit. True)
            (\<lambda>(handle :: unit) (args :: unit) (kwargs :: unit). (Inr () :: error + unit))
            \<lparr>nodes = [], links = [], p_instance = None\<rparr> () ())
     = Inl (ValueError ''Pipeline not saved'')
   \<and> fst (run (\<lambda>handle :: unit. True)
            (\<lambda>(handle :: unit) (args :: unit) (kwargs :: unit). (Inr () :: error + unit))
            \<lparr>nodes = [], links = [], p_instance = None\<rparr> () ())
     \<noteq> Inl (ValueError ''pipeline not saved'')
   \<and> run (\<lambda>handle :: nat. handle \<noteq> 0)
          (\<lambda>(handle :: nat) (args :: nat) (kwargs :: unit). (Inr (handle + args) :: error + nat))
          \<lparr>nodes = [], links = [], p_instance = Some 0\<rparr> 6 ()
     = (Inl (ValueError ''Pipeline not saved''), [])
   \<and> run (\<lambda>handle :: unit. True)
          (\<lambda>(handle :: unit) (args :: unit) (kwargs :: unit).
             (Inl (ValueError ''Pipeline not saved'') :: error + unit))
          \<lparr>nodes = [], links = [], p_instance = Some ()\<rparr> () ()
     = (Inl (ValueError ''Pipeline not saved''), [((), (), ())])"
  by (simp add: run_def instance_true_def)

theorem run_forwards_to_handle_witness:
  "run (\<lambda>handle :: nat. handle \<noteq> 0)
       (\<lambda>(handle :: nat) (args :: nat list) (kwargs :: (string \<times> nat) list).
          (Inr (handle + sum_list args + sum_list (map snd kwargs)) :: error + nat))
       \<lparr>nodes = [], links = [], p_instance = None\<rparr> [1, 2] [(''x'', 3)]
     = (Inl (ValueError ''Pipeline not saved''), [])
   \<and> run (\<lambda>handle :: nat. handle \<noteq> 0)
       (\<lambda>(handle :: nat) (args :: nat list) (kwargs :: (string \<times> nat) list).
          (Inr (handle + sum_list args + sum_list (map snd kwargs)) :: error + nat))
       \<lparr>nodes = [], links = [], p_instance = Some 10\<rparr> [1, 2] [(''x'', 3)]
     = (Inr 16, [(10, [1, 2], [(''x'', 3)])])"
proof
  let ?ht = "\<lambda>handle :: nat. handle \<noteq> 0"
  let ?hr = "\<lambda>(handle :: nat) (args :: nat list) (kwargs :: (string \<times> nat) list).
          (Inr (handle + sum_list args + sum_list (map snd kwargs)) :: error + nat)"
  let ?fresh = "\<lparr>nodes = [], links = [], p_instance = (None :: nat option)\<rparr>"
  have n: "p_instance ?fresh = None" by simp
  note t = run_forwards_to_handle [of ?ht ?hr ?fresh "[1, 2]" "[(''x'', 3)]"]
  from t [THEN conjunct2, THEN conjunct1, rule_format, OF n]
  have "\<not> instance_true ?ht (p_instance ?fresh)" .
  with t [THEN conjunct1]
  show "run ?ht ?hr ?fresh [1, 2] [(''x'', 3)] = (Inl (ValueError ''Pipeline not saved''), [])"
    by (rule iffD2)
next
  let ?ht = "\<lambda>handle :: nat. handle \<noteq> 0"
  let ?hr = "\<lambda>(handle :: nat) (args :: nat list) (kwargs :: (string \<times> nat) list).
          (Inr (handle + sum_list args + sum_list (map snd kwargs)) :: error + nat)"
  let ?saved = "\<lparr>nodes = [], links = [], p_instance = Some (10 :: nat)\<rparr>"
  have s: "p_instance ?saved = Some 10 \<and> ?ht 10" by simp
  have "run ?ht ?hr ?saved [1, 2] [(''x'', 3)] = (?hr 10 [1, 2] [(''x'', 3)], [(10, [1, 2], [(''x'', 3)])])"
    by (rule run_forwards_to_handle [of ?ht ?hr ?saved "[1, 2]" "[(''x'', 3)]",
          THEN conjunct2, THEN conjunct2, THEN conjunct2, THEN conjunct1, rule_format, OF s])
  then show "run ?ht ?hr ?saved [1, 2] [(''x'', 3)] = (Inr 16, [(10, [1, 2], [(''x'', 3)])])"
    by simp
qed

text \<open>
  Claim C8. \<open>router\<close> calls the constructor of the router node with the keyword \<open>routes\<close>
  set to a list that has one route for each pair, in the order of the pairs: the value
  is the pair's data type, the path the one-element list of the pair's node, the type
  \<open>CHECK_TYPE\<close> and the operation \<open>EQUAL\<close>.
\<close>

theorem router_expands_routes:
  "\<exists>rs. router Router self routes args kwargs
           = Router self args (AList.update ''routes'' (Routes rs) kwargs)
      \<and> map_of (AList.update ''routes'' (Routes rs) kwargs) ''routes'' = Some (Routes rs)
      \<and> length rs = length routes
      \<and> (\<forall>i < length routes.
            route_value (rs ! i) = fst (routes ! i)
          \<and> path (rs ! i) = [snd (routes ! i)]
          \<and> route_type (rs ! i) = CHECK_TYPE
          \<and> operation (rs ! i) = EQUAL)"
proof -
  let ?rs = "map (\<lambda>route. \<lparr>route_value = fst route, path = [snd route],
                           route_type = CHECK_TYPE, operation = EQUAL\<rparr>) routes"
  have "router Router self routes args kwargs
           = Router self args (AList.update ''routes'' (Routes ?rs) kwargs)"
    by (simp add: router_def)
  moreover have "map_of (AList.update ''routes'' (Routes ?rs) kwargs) ''routes'' = Some (Routes ?rs)"
    by (simp add: AList.update_conv')
  moreover have "length ?rs = length routes" by simp
  moreover have "\<forall>i < length routes.
            route_value (?rs ! i) = fst (routes ! i)
          \<and> path (?rs ! i) = [snd (routes ! i)]
          \<and> route_type (?rs ! i) = CHECK_TYPE
          \<and> operation (?rs ! i) = EQUAL"
    by simp
  ultimately show ?thesis by blast
qed

theorem router_expands_routes_witness:
  "\<exists>rs. router (\<lambda>(self :: unit) (args :: unit) kwargs. kwargs) ()
           [(''TEXT'', 4 :: nat), (''IMAGE'', 5)] () [(''label'', Other (PStr ''r''))]
         = [(''label'', Other (PStr ''r'')), (''routes'', Routes rs)]
      \<and> length rs = 2
      \<and> route_value (rs ! 0) = ''TEXT'' \<and> path (rs ! 0) = [4]
      \<and> route_type (rs ! 0) = CHECK_TYPE \<and> operation (rs ! 0) = EQUAL
      \<and> route_value (rs ! 1) = ''IMAGE'' \<and> path (rs ! 1) = [5]
      \<and> route_type (rs ! 1) = CHECK_TYPE \<and> operation (rs ! 1) = EQUAL"
proof -
  let ?R = "\<lambda>(self :: unit) (args :: unit) (kwargs :: (string \<times> (string, nat) kwarg) list). kwargs"
  let ?routes = "[(''TEXT'', 4 :: nat), (''IMAGE'', 5)]"
  let ?kw = "[(''label'', Other (PStr ''r''))] :: (string \<times> (string, nat) kwarg) list"
  from router_expands_routes [of ?R "()" ?routes "()" ?kw]
  obtain rs where r: "router ?R () ?routes () ?kw = ?R () () (AList.update ''routes'' (Routes rs) ?kw)"
    and l: "length rs = length ?routes"
    and i: "\<forall>i < length ?routes.
            route_value (rs ! i) = fst (?routes ! i)
          \<and> path (rs ! i) = [snd (?routes ! i)]
          \<and> route_type (rs ! i) = CHECK_TYPE
          \<and> operation (rs ! i) = EQUAL"
    by blast
  from r have r': "router ?R () ?routes () ?kw = [(''label'', Other (PStr ''r'')), (''routes'', Routes rs)]"
    by simp
  from l have l': "length rs = 2" by simp
  from i have i0: "route_value (rs ! 0) = ''TEXT'' \<and> path (rs ! 0) = [4]
      \<and> route_type (rs ! 0) = CHECK_TYPE \<and> operation (rs ! 0) = EQUAL"
    by simp
  from i have "route_value (rs ! 1) = fst (?routes ! 1)
          \<and> path (rs ! 1) = [snd (?routes ! 1)]
          \<and> route_type (rs ! 1) = CHECK_TYPE
          \<and> operation (rs ! 1) = EQUAL"
    by simp
  then have i1: "route_value (rs ! 1) = ''IMAGE'' \<and> path (rs ! 1) = [5]
      \<and> route_type (rs ! 1) = CHECK_TYPE \<and> operation (rs ! 1) = EQUAL"
    by simp
  from r' l' i0 i1 show ?thesis by blast
qed

text \<open>
  Claim C10. A pipeline with no nodes passes \<open>validate\<close> whatever its links, and \<open>save\<close>
  on the pipeline with no nodes and no links calls the collaborator with the empty graph
  \<open>{"nodes": [], "links": []}\<close>, then stores the handle or lets the collaborator's error
  through.
\<close>

theorem validate_empty_pipeline:
  "validate \<lparr>nodes = [], links = ls, p_instance = i\<rparr> = Inr ()
   \<and> save create uuid4 \<lparr>nodes = [], links = [], p_instance = None\<rparr> calls =
       (case create (''pipeline-'' @ uuid4) (PDict [(''nodes'', PList []), (''links'', PList [])]) of
          Inl e \<Rightarrow>
            (Inl e, \<lparr>nodes = [], links = [], p_instance = None\<rparr>,
             calls @ [(''pipeline-'' @ uuid4, PDict [(''nodes'', PList []), (''links'', PList [])])])
        | Inr handle \<Rightarrow>
            (Inr \<lparr>nodes = [], links = [], p_instance = Some handle\<rparr>,
             \<lparr>nodes = [], links = [], p_instance = Some handle\<rparr>,
             calls @ [(''pipeline-'' @ uuid4, PDict [(''nodes'', PList []), (''links'', PList [])])]))"
proof
  show "validate \<lparr>nodes = [], links = ls, p_instance = i\<rparr> = Inr ()"
    by (simp add: validate_def)
next
  show "save create uuid4 \<lparr>nodes = [], links = [], p_instance = None\<rparr> calls =
       (case create (''pipeline-'' @ uuid4) (PDict [(''nodes'', PList []), (''links'', PList [])]) of
          Inl e \<Rightarrow>
            (Inl e, \<lparr>nodes = [], links = [], p_instance = None\<rparr>,
             calls @ [(''pipeline-'' @ uuid4, PDict [(''nodes'', PList []), (''links'', PList [])])])
        | Inr handle \<Rightarrow>
            (Inr \<lparr>nodes = [], links = [], p_instance = Some handle\<rparr>,
             \<lparr>nodes = [], links = [], p_instance = Some handle\<rparr>,
             calls @ [(''pipeline-'' @ uuid4, PDict [(''nodes'', PList []), (''links'', PList [])])]))"
    by (simp add: save_def validate_def to_dict_value Let_def split: sum.splits)
qed

section \<open>Properties of the serialization on the object store\<close>

lemma inv_st_refl: "inv_st h h"
  by (auto simp: inv_st_def)

lemma inv_st_new_obj:
  assumes "inv_st h0 h" and "list_all (fresh (length h0)) (obj_vals ob)"
    and "new_obj ob h = (v, h')"
  shows "inv_st h0 h' \<and> fresh (length h0) v"
  using assms
  by (auto simp: inv_st_def new_obj_def fresh_def nth_append)

lemma inv_st_put_obj:
  assumes "inv_st h0 h" and "fresh (length h0) v"
    and "list_all (fresh (length h0)) (obj_vals ob)"
  shows "inv_st h0 (put_obj v ob h)"
proof (cases v)
  case (VRef x)
  show ?thesis
  proof (cases "x < length h")
    case True
    with assms VRef show ?thesis
      by (auto simp: inv_st_def put_obj_def fresh_def nth_list_update)
  next
    case False
    with assms VRef show ?thesis
      by (simp add: put_obj_def list_update_beyond)
  qed
qed (simp_all add: put_obj_def assms)

lemma inv_st_obj_at:
  assumes "inv_st h0 h" and "fresh (length h0) v" and "obj_at h v = Some ob"
  shows "list_all (fresh (length h0)) (obj_vals ob)"
  using assms
  by (auto simp: inv_st_def obj_at_def fresh_def split: val.splits if_splits)

lemma fresh_imm [simp]: "fresh n VNone" "fresh n (VInt i)" "fresh n (VStr s)"
  by (simp_all add: fresh_def)

lemma map_st_inv:
  assumes f: "\<And>h x y h'. inv_st h0 h \<Longrightarrow> f h x = Inr (y, h') \<Longrightarrow> inv_st h0 h' \<and> fresh (length h0) y"
  shows "inv_st h0 h \<Longrightarrow> map_st f h xs = Inr (ys, h') \<Longrightarrow>
         inv_st h0 h' \<and> list_all (fresh (length h0)) ys"
proof (induction xs arbitrary: h ys)
  case Nil
  then show ?case by simp
next
  case (Cons x xs)
  from Cons.prems(2) obtain y h1 ys' where
    a: "f h x = Inr (y, h1)" and b: "map_st f h1 xs = Inr (ys', h')" and c: "ys = y # ys'"
    by (auto split: sum.splits prod.splits)
  from f [OF Cons.prems(1) a] have i1: "inv_st h0 h1" and fy: "fresh (length h0) y" by simp_all
  from Cons.IH [OF i1 b] have "inv_st h0 h' \<and> list_all (fresh (length h0)) ys'" .
  with fy c show ?case by simp
qed

lemma foreach_st_inv:
  assumes f: "\<And>h x h'. inv_st h0 h \<Longrightarrow> fresh (length h0) x \<Longrightarrow> f h x = Inr h' \<Longrightarrow> inv_st h0 h'"
  shows "inv_st h0 h \<Longrightarrow> list_all (fresh (length h0)) xs \<Longrightarrow> foreach_st f h xs = Inr h' \<Longrightarrow>
         inv_st h0 h'"
proof (induction xs arbitrary: h)
  case Nil
  then show ?case by simp
next
  case (Cons x xs)
  from Cons.prems(3) obtain h1 where a: "f h x = Inr h1" and b: "foreach_st f h1 xs = Inr h'"
    by (auto split: sum.splits)
  from Cons.prems(2) have fx: "fresh (length h0) x" and fxs: "list_all (fresh (length h0)) xs"
    by simp_all
  from f [OF Cons.prems(1) fx a] have "inv_st h0 h1" .
  from Cons.IH [OF this fxs b] show ?case .
qed

lemma asdict_list_st_inv:
  assumes f: "\<And>h x y h'. inv_st h0 h \<Longrightarrow> f h x = Inr (y, h') \<Longrightarrow> inv_st h0 h' \<and> fresh (length h0) y"
    and i: "inv_st h0 h" and r: "asdict_list_st f h v = Inr (w, h')"
  shows "inv_st h0 h' \<and> fresh (length h0) w"
proof -
  from r obtain vs ws h1 where
    m: "map_st f h vs = Inr (ws, h1)" and n: "new_obj (ListObj ws) h1 = (w, h')"
    by (auto simp: asdict_list_st_def split: option.splits obj.splits sum.splits prod.splits)
  from map_st_inv [of h0 f, OF f i m] have "inv_st h0 h1" and "list_all (fresh (length h0)) ws"
    by simp_all
  then show ?thesis using n by (intro inv_st_new_obj) simp_all
qed

lemma asdict_Node_st_inv:
  "inv_st h0 h \<Longrightarrow> asdict_Node_st h v = Inr (w, h') \<Longrightarrow> inv_st h0 h' \<and> fresh (length h0) w"
  by (auto simp: asdict_Node_st_def split: option.splits obj.splits
           dest!: inv_st_new_obj [rotated 2])

lemma asdict_ParamMapping_st_inv:
  "inv_st h0 h \<Longrightarrow> asdict_ParamMapping_st h v = Inr (w, h') \<Longrightarrow>
   inv_st h0 h' \<and> fresh (length h0) w"
  by (auto simp: asdict_ParamMapping_st_def split: option.splits obj.splits
           dest!: inv_st_new_obj [rotated 2])

lemma asdict_Link_st_inv:
  assumes i: "inv_st h0 h" and r: "asdict_Link_st h v = Inr (w, h')"
  shows "inv_st h0 h' \<and> fresh (length h0) w"
proof -
  from r obtain f t pm where o: "obj_at h v = Some (LinkObj f t pm)"
    by (auto simp: asdict_Link_st_def split: option.splits obj.splits)
  from r o obtain pm' h1 where
    p: "(if pm = VNone then Inr (VNone, h)
         else asdict_list_st asdict_ParamMapping_st h pm) = Inr (pm', h1)"
    and n: "new_obj (DictObj [(''from_node'', VInt f), (''to_node'', VInt t),
                              (''paramMapping'', pm')]) h1 = (w, h')"
    by (simp add: asdict_Link_st_def split: sum.splits prod.splits)
  have "inv_st h0 h1 \<and> fresh (length h0) pm'"
  proof (cases "pm = VNone")
    case True
    with p i show ?thesis by simp
  next
    case False
    with p have q: "asdict_list_st asdict_ParamMapping_st h pm = Inr (pm', h1)" by simp
    show ?thesis
      by (rule asdict_list_st_inv [where f = asdict_ParamMapping_st, OF _ i q])
         (rule asdict_ParamMapping_st_inv)
  qed
  then show ?thesis using n by (intro inv_st_new_obj) simp_all
qed

lemma asdict_Pipeline_st_inv:
  assumes i: "inv_st h0 h" and r: "asdict_Pipeline_st h v = Inr (w, h')"
  shows "inv_st h0 h' \<and> fresh (length h0) w"
proof -
  from r obtain ns ls where o: "obj_at h v = Some (PipelineObj ns ls)"
    by (auto simp: asdict_Pipeline_st_def split: option.splits obj.splits)
  from r o obtain ns' h1 where a: "asdict_list_st asdict_Node_st h ns = Inr (ns', h1)"
    by (auto simp: asdict_Pipeline_st_def split: sum.splits)
  from r o a obtain ls' h2 where b: "asdict_list_st asdict_Link_st h1 ls = Inr (ls', h2)"
    and n: "new_obj (DictObj [(''nodes'', ns'), (''links'', ls')]) h2 = (w, h')"
    by (auto simp: asdict_Pipeline_st_def split: sum.splits)
  have 1: "inv_st h0 h1 \<and> fresh (length h0) ns'"
    by (rule asdict_list_st_inv [where f = asdict_Node_st, OF _ i a])
       (rule asdict_Node_st_inv)
  then have i1: "inv_st h0 h1" by simp
  have 2: "inv_st h0 h2 \<and> fresh (length h0) ls'"
    by (rule asdict_list_st_inv [where f = asdict_Link_st, OF _ i1 b])
       (rule asdict_Link_st_inv)
  from 1 2 n show ?thesis by (intro inv_st_new_obj) simp_all
qed

lemma fresh_map_of:
  "list_all (fresh n) (map snd d) \<Longrightarrow> map_of d k = Some x \<Longrightarrow> fresh n x"
  by (auto simp: list_all_iff dest!: map_of_SomeD)

lemma fresh_delete:
  "list_all (fresh n) (map snd d) \<Longrightarrow> list_all (fresh n) (map snd (AList.delete k d))"
  by (auto simp: list_all_iff AList.delete_eq)

lemma fresh_update:
  "list_all (fresh n) (map snd d) \<Longrightarrow> fresh n x \<Longrightarrow>
   list_all (fresh n) (map snd (AList.update k x d))"
  by (induction d) (auto)

lemma pop_st_inv:
  assumes i: "inv_st h0 h" and v: "fresh (length h0) v" and r: "pop_st h v k = Inr (x, h')"
  shows "inv_st h0 h' \<and> fresh (length h0) x"
proof -
  from r obtain d where o: "obj_at h v = Some (DictObj d)"
    and m: "map_of d k = Some x" and h': "h' = put_obj v (DictObj (AList.delete k d)) h"
    by (auto simp: pop_st_def dict_pop_def split: option.splits obj.splits sum.splits)
  from inv_st_obj_at [OF i v o] have d: "list_all (fresh (length h0)) (map snd d)" by simp
  from d m have "fresh (length h0) x" by (rule fresh_map_of)
  moreover have "inv_st h0 h'"
    unfolding h' using i v by (rule inv_st_put_obj) (simp add: fresh_delete [OF d])
  ultimately show ?thesis by simp
qed

lemma setitem_st_inv:
  assumes i: "inv_st h0 h" and v: "fresh (length h0) v" and x: "fresh (length h0) x"
    and r: "setitem_st h v k x = Inr h'"
  shows "inv_st h0 h'"
proof -
  from r obtain d where o: "obj_at h v = Some (DictObj d)"
    and h': "h' = put_obj v (DictObj (AList.update k x d)) h"
    by (auto simp: setitem_st_def dict_set_def split: option.splits obj.splits)
  from inv_st_obj_at [OF i v o] have d: "list_all (fresh (length h0)) (map snd d)" by simp
  show ?thesis
    unfolding h' using i v by (rule inv_st_put_obj) (simp add: fresh_update [OF d x])
qed

lemma get_st_fresh:
  assumes i: "inv_st h0 h" and v: "fresh (length h0) v" and x: "fresh (length h0) dflt"
    and r: "get_st h v k dflt = Inr got"
  shows "fresh (length h0) got"
proof -
  from r obtain d where o: "obj_at h v = Some (DictObj d)" and g: "got = dict_get k dflt d"
    by (auto simp: get_st_def split: option.splits obj.splits)
  from inv_st_obj_at [OF i v o] have d: "list_all (fresh (length h0)) (map snd d)" by simp
  show ?thesis
    unfolding g dict_get_def using x by (auto split: option.splits intro: fresh_map_of [OF d])
qed

lemma getitem_st_fresh:
  assumes i: "inv_st h0 h" and v: "fresh (length h0) v"
    and r: "getitem_st h v k = Inr got"
  shows "fresh (length h0) got"
proof -
  from r obtain d where o: "obj_at h v = Some (DictObj d)" and g: "map_of d k = Some got"
    by (auto simp: getitem_st_def split: option.splits obj.splits)
  from inv_st_obj_at [OF i v o] have d: "list_all (fresh (length h0)) (map snd d)" by simp
  from d g show ?thesis by (rule fresh_map_of)
qed

lemma iter_st_fresh:
  assumes i: "inv_st h0 h" and v: "fresh (length h0) v"
    and r: "iter_st h v = Inr items"
  shows "list_all (fresh (length h0)) items"
proof (cases v)
  case (VStr s)
  with r show ?thesis by (auto simp: iter_st_def list_all_iff)
next
  case (VRef a)
  with r consider vs where "obj_at h v = Some (ListObj vs)" "items = vs"
    | d where "obj_at h v = Some (DictObj d)" "items = map (\<lambda>kx. VStr (fst kx)) d"
    by (auto simp: iter_st_def split: option.splits obj.splits)
  then show ?thesis
  proof cases
    case 1
    from inv_st_obj_at [OF i v 1(1)] 1(2) show ?thesis by simp
  next
    case 2
    then show ?thesis by (simp add: list_all_iff)
  qed
qed (insert r, simp_all add: iter_st_def)

lemma rename_param_st_inv:
  assumes i: "inv_st h0 h" and v: "fresh (length h0) param"
    and r: "rename_param_st h param = Inr h'"
  shows "inv_st h0 h'"
proof -
  from r obtain x h1 where 1: "pop_st h param ''from_param'' = Inr (x, h1)"
    by (auto simp: rename_param_st_def split: sum.splits)
  from r 1 obtain h2 where 2: "setitem_st h1 param ''from'' x = Inr h2"
    by (auto simp: rename_param_st_def split: sum.splits)
  from r 1 2 obtain y h3 where 3: "pop_st h2 param ''to_param'' = Inr (y, h3)"
    by (auto simp: rename_param_st_def split: sum.splits)
  from r 1 2 3 have 4: "setitem_st h3 param ''to'' y = Inr h'"
    by (simp add: rename_param_st_def)
  from pop_st_inv [OF i v 1] have i1: "inv_st h0 h1" and fx: "fresh (length h0) x" by simp_all
  from setitem_st_inv [OF i1 v fx 2] have i2: "inv_st h0 h2" .
  from pop_st_inv [OF i2 v 3] have i3: "inv_st h0 h3" and fy: "fresh (length h0) y" by simp_all
  from setitem_st_inv [OF i3 v fy 4] show ?thesis .
qed

lemma link_params_st_inv:
  assumes i: "inv_st h0 h" and v: "fresh (length h0) link"
    and r: "link_params_st h link = Inr (params, h')"
  shows "inv_st h0 h' \<and> fresh (length h0) params"
proof -
  obtain dflt h1 where n: "new_obj (ListObj []) h = (dflt, h1)"
    by (cases "new_obj (ListObj []) h")
  from inv_st_new_obj [OF i _ n] have i1: "inv_st h0 h1" and fd: "fresh (length h0) dflt"
    by simp_all
  from r n obtain got where g: "get_st h1 link ''paramMapping'' dflt = Inr got"
    and p: "(if truthy_st h1 got then (got, h1) else new_obj (ListObj []) h1) = (params, h')"
    by (auto simp: link_params_st_def split: sum.splits)
  from get_st_fresh [OF i1 v fd g] have fg: "fresh (length h0) got" .
  show ?thesis
  proof (cases "truthy_st h1 got")
    case True
    with p i1 fg show ?thesis by simp
  next
    case False
    with p have "new_obj (ListObj []) h1 = (params, h')" by simp
    from inv_st_new_obj [OF i1 _ this] show ?thesis by simp
  qed
qed

lemma rename_link_st_inv:
  assumes i: "inv_st h0 h" and v: "fresh (length h0) link"
    and r: "rename_link_st h link = Inr h'"
  shows "inv_st h0 h'"
proof -
  from r obtain x h1 where 1: "pop_st h link ''from_node'' = Inr (x, h1)"
    by (auto simp: rename_link_st_def split: sum.splits)
  from r 1 obtain h2 where 2: "setitem_st h1 link ''from'' x = Inr h2"
    by (auto simp: rename_link_st_def split: sum.splits)
  from r 1 2 obtain y h3 where 3: "pop_st h2 link ''to_node'' = Inr (y, h3)"
    by (auto simp: rename_link_st_def split: sum.splits)
  from r 1 2 3 obtain h4 where 4: "setitem_st h3 link ''to'' y = Inr h4"
    by (auto simp: rename_link_st_def split: sum.splits)
  from r 1 2 3 4 obtain params h5 where 5: "link_params_st h4 link = Inr (params, h5)"
    by (auto simp: rename_link_st_def split: sum.splits)
  from r 1 2 3 4 5 obtain items where 6: "iter_st h5 params = Inr items"
    by (auto simp: rename_link_st_def split: sum.splits)
  from r 1 2 3 4 5 6 have 7: "foreach_st rename_param_st h5 items = Inr h'"
    by (simp add: rename_link_st_def)
  from pop_st_inv [OF i v 1] have i1: "inv_st h0 h1" and fx: "fresh (length h0) x" by simp_all
  from setitem_st_inv [OF i1 v fx 2] have i2: "inv_st h0 h2" .
  from pop_st_inv [OF i2 v 3] have i3: "inv_st h0 h3" and fy: "fresh (length h0) y" by simp_all
  from setitem_st_inv [OF i3 v fy 4] have i4: "inv_st h0 h4" .
  from link_params_st_inv [OF i4 v 5] have i5: "inv_st h0 h5" and fp: "fresh (length h0) params"
    by simp_all
  from iter_st_fresh [OF i5 fp 6] have fi: "list_all (fresh (length h0)) items" .
  show ?thesis
    by (rule foreach_st_inv [where f = rename_param_st, OF _ i5 fi 7])
       (rule rename_param_st_inv)
qed

lemma to_dict_st_inv:
  assumes r: "to_dict_st h self = Inr (obj, h')"
  shows "inv_st h h' \<and> fresh (length h) obj"
proof -
  from r obtain h1 where 1: "asdict_Pipeline_st h self = Inr (obj, h1)"
    by (auto simp: to_dict_st_def split: sum.splits)
  from r 1 obtain ls where 2: "getitem_st h1 obj ''links'' = Inr ls"
    by (auto simp: to_dict_st_def split: sum.splits)
  from r 1 2 obtain items where 3: "iter_st h1 ls = Inr items"
    by (auto simp: to_dict_st_def split: sum.splits)
  from r 1 2 3 have 4: "foreach_st rename_link_st h1 items = Inr h'"
    by (auto simp: to_dict_st_def split: sum.splits)
  from asdict_Pipeline_st_inv [OF inv_st_refl 1]
  have i1: "inv_st h h1" and fo: "fresh (length h) obj" by simp_all
  from getitem_st_fresh [OF i1 fo 2] have fl: "fresh (length h) ls" .
  from iter_st_fresh [OF i1 fl 3] have fi: "list_all (fresh (length h)) items" .
  have "inv_st h h'"
    by (rule foreach_st_inv [where f = rename_link_st, OF _ i1 fi 4])
       (rule rename_link_st_inv)
  with fo show ?thesis by simp
qed

text \<open>
  Claim C9. When \<open>to_dict\<close> returns, every object that was in the store before the call
  is there unchanged: the pipeline, its node list and link list, and every node, link and
  parameter mapping with its fields. The dictionary returned is a new object; the
  renaming is done on objects allocated during the call.
\<close>

theorem to_dict_st_leaves_pipeline:
  assumes "to_dict_st h self = Inr (obj, h')"
  shows "length h \<le> length h'
       \<and> (\<forall>a < length h. h' ! a = h ! a)
       \<and> (\<exists>a. obj = VRef a \<and> length h \<le> a)"
proof -
  from to_dict_st_inv [OF assms] have i: "inv_st h h'" and f: "fresh (length h) obj"
    by simp_all
  from i have l: "length h \<le> length h'" and t: "take (length h) h' = h"
    by (simp_all add: inv_st_def)
  have u: "\<forall>a < length h. h' ! a = h ! a"
  proof (intro allI impI)
    fix a
    assume "a < length h"
    then have "take (length h) h' ! a = h' ! a" by simp
    with t show "h' ! a = h ! a" by simp
  qed
  from assms obtain h1 where "asdict_Pipeline_st h self = Inr (obj, h1)"
    by (auto simp: to_dict_st_def split: sum.splits)
  then obtain a where "obj = VRef a"
    by (auto simp: asdict_Pipeline_st_def new_obj_def
             split: option.splits obj.splits sum.splits)
  with f have "\<exists>a. obj = VRef a \<and> length h \<le> a"
    by (simp add: fresh_def)
  with l u show ?thesis by simp
qed

lemma to_dict_st_example:
  "to_dict_st [PipelineObj (VRef 1) (VRef 2), ListObj [VRef 3], ListObj [VRef 4],
               NodeObj 1 ''in'' INPUT, LinkObj 1 2 (VRef 5), ListObj [VRef 6],
               ParamMappingObj ''x'' ''y''] (VRef 0)
   = Inr (VRef 13,
      [PipelineObj (VRef 1) (VRef 2), ListObj [VRef 3], ListObj [VRef 4],
       NodeObj 1 ''in'' INPUT, LinkObj 1 2 (VRef 5), ListObj [VRef 6],
       ParamMappingObj ''x'' ''y'',
       DictObj [(''number'', VInt 1), (''label'', VStr ''in''), (''type'', VStr ''INPUT'')],
       ListObj [VRef 7],
       DictObj [(''from'', VStr ''x''), (''to'', VStr ''y'')],
       ListObj [VRef 9],
       DictObj [(''paramMapping'', VRef 10), (''from'', VInt 1), (''to'', VInt 2)],
       ListObj [VRef 11],
       DictObj [(''nodes'', VRef 8), (''links'', VRef 12)],
       ListObj []])"
  by code_simp

theorem to_dict_st_leaves_pipeline_witness:
  "to_dict_st [PipelineObj (VRef 1) (VRef 2), ListObj [VRef 3], ListObj [VRef 4],
               NodeObj 1 ''in'' INPUT, LinkObj 1 2 (VRef 5), ListObj [VRef 6],
               ParamMappingObj ''x'' ''y''] (VRef 0)
   = Inr (VRef 13,
      [PipelineObj (VRef 1) (VRef 2), ListObj [VRef 3], ListObj [VRef 4],
       NodeObj 1 ''in'' INPUT, LinkObj 1 2 (VRef 5), ListObj [VRef 6],
       ParamMappingObj ''x'' ''y'',
       DictObj [(''number'', VInt 1), (''label'', VStr ''in''), (''type'', VStr ''INPUT'')],
       ListObj [VRef 7],
       DictObj [(''from'', VStr ''x''), (''to'', VStr ''y'')],
       ListObj [VRef 9],
       DictObj [(''paramMapping'', VRef 10), (''from'', VInt 1), (''to'', VInt 2)],
       ListObj [VRef 11],
       DictObj [(''nodes'', VRef 8), (''links'', VRef 12)],
       ListObj []])
   \<and> [PipelineObj (VRef 1) (VRef 2), ListObj [VRef 3], ListObj [VRef 4],
       NodeObj 1 ''in'' INPUT, LinkObj 1 2 (VRef 5), ListObj [VRef 6],
       ParamMappingObj ''x'' ''y'',
       DictObj [(''number'', VInt 1), (''label'', VStr ''in''), (''type'', VStr ''INPUT'')],
       ListObj [VRef 7],
       DictObj [(''from'', VStr ''x''), (''to'', VStr ''y'')],
       ListObj [VRef 9],
       DictObj [(''paramMapping'', VRef 10), (''from'', VInt 1), (''to'', VInt 2)],
       ListObj [VRef 11],
       DictObj [(''nodes'', VRef 8), (''links'', VRef 12)],
       ListObj []] ! 4 = LinkObj 1 2 (VRef 5)
   \<and> [PipelineObj (VRef 1) (VRef 2), ListObj [VRef 3], ListObj [VRef 4],
       NodeObj 1 ''in'' INPUT, LinkObj 1 2 (VRef 5), ListObj [VRef 6],
       ParamMappingObj ''x'' ''y'',
       DictObj [(''number'', VInt 1), (''label'', VStr ''in''), (''type'', VStr ''INPUT'')],
       ListObj [VRef 7],
       DictObj [(''from'', VStr ''x''), (''to'', VStr ''y'')],
       ListObj [VRef 9],
       DictObj [(''paramMapping'', VRef 10), (''from'', VInt 1), (''to'', VInt 2)],
       ListObj [VRef 11],
       DictObj [(''nodes'', VRef 8), (''links'', VRef 12)],
       ListObj []] ! 6 = ParamMappingObj ''x'' ''y''"
proof -
  note t = to_dict_st_leaves_pipeline [OF to_dict_st_example]
  from t [THEN conjunct2, THEN conjunct1, rule_format, of 4]
       t [THEN conjunct2, THEN conjunct1, rule_format, of 6]
       to_dict_st_example
  show ?thesis by simp
qed

end
